theory Spec2Isabelle
  imports Main "HOL-Library.Sublist"
begin

section \<open>Text primitives of the Python runtime\<close>

text \<open>
  The integrator of \<^verbatim>\<open>src/mover/tool.py\<close> manipulates Python strings. A Python string is
  modelled as an Isabelle \<^typ>\<open>string\<close>; a character stands for the Unicode code point of the
  same number, so the model covers text whose code points lie below 256. The case mappings
  \<open>upper\<close> and \<open>lower\<close> are the ones of \<^verbatim>\<open>str.upper\<close> and \<^verbatim>\<open>str.lower\<close> on ASCII text.
\<close>

definition LF :: char where
  "LF = CHR 0x0A"

definition CR :: char where
  "CR = CHR 0x0D"

text \<open>\<^verbatim>\<open>sep.join(parts)\<close>.\<close>

fun join :: "string \<Rightarrow> string list \<Rightarrow> string" where
  "join sep [] = []"
| "join sep [x] = x"
| "join sep (x # y # ys) = x @ sep @ join sep (y # ys)"

text \<open>\<^verbatim>\<open>needle in text\<close> on strings: the needle occurs as a contiguous substring.\<close>

fun contains :: "string \<Rightarrow> string \<Rightarrow> bool" where
  "contains needle [] = (needle = [])"
| "contains needle (c # cs) = (prefix needle (c # cs) \<or> contains needle cs)"

text \<open>
  The line boundaries of \<^verbatim>\<open>str.splitlines\<close> among the code points below 256: LF, VT, FF,
  CR (and CR LF as one boundary), FS, GS, RS and NEL.
\<close>

definition is_linebreak :: "char \<Rightarrow> bool" where
  "is_linebreak c = (c \<in> {CHR 0x0A, CHR 0x0B, CHR 0x0C, CHR 0x0D, CHR 0x1C, CHR 0x1D, CHR 0x1E, CHR 0x85})"

fun splitlines_from :: "string \<Rightarrow> string \<Rightarrow> string list" where
  "splitlines_from cur [] = (if cur = [] then [] else [rev cur])"
| "splitlines_from cur (c # cs) =
     (if c = CR then
        (case cs of
           [] \<Rightarrow> [rev cur]
         | d # ds \<Rightarrow> if d = LF then rev cur # splitlines_from [] ds
                    else rev cur # splitlines_from [] (d # ds))
      else if is_linebreak c then rev cur # splitlines_from [] cs
      else splitlines_from (c # cur) cs)"

definition splitlines :: "string \<Rightarrow> string list" where
  "splitlines text = splitlines_from [] text"

text \<open>The characters \<^verbatim>\<open>str.isspace\<close> accepts among the code points below 256.\<close>

definition isspace :: "char \<Rightarrow> bool" where
  "isspace c = (c \<in> {CHR 0x09, CHR 0x0A, CHR 0x0B, CHR 0x0C, CHR 0x0D, CHR 0x1C, CHR 0x1D,
                       CHR 0x1E, CHR 0x1F, CHR 0x20, CHR 0x85, CHR 0xA0})"

definition strip :: "string \<Rightarrow> string" where
  "strip s = rev (dropWhile isspace (rev (dropWhile isspace s)))"

definition startswith :: "string \<Rightarrow> string \<Rightarrow> bool" where
  "startswith s p = prefix p s"

definition upper_char :: "char \<Rightarrow> char" where
  "upper_char c =
     (if (97::nat) \<le> of_char c \<and> of_char c \<le> (122::nat) then char_of (of_char c - (32::nat)) else c)"

definition upper :: "string \<Rightarrow> string" where
  "upper s = map upper_char s"

definition lower_char :: "char \<Rightarrow> char" where
  "lower_char c =
     (if (65::nat) \<le> of_char c \<and> of_char c \<le> (90::nat) then char_of (of_char c + (32::nat)) else c)"

definition lower :: "string \<Rightarrow> string" where
  "lower s = map lower_char s"

definition endswith :: "string \<Rightarrow> string \<Rightarrow> bool" where
  "endswith s p = suffix p s"

text \<open>\<^verbatim>\<open>str(n)\<close> for an integer: its decimal digits, with a sign when negative.\<close>

definition digit_char :: "nat \<Rightarrow> char" where
  "digit_char d = char_of (48 + d)"

function str_nat :: "nat \<Rightarrow> string" where
  "str_nat n = (if n < 10 then [digit_char n] else str_nat (n div 10) @ [digit_char (n mod 10)])"
  by pat_completeness auto
termination
  by (relation "measure id") auto

declare str_nat.simps [simp del]

definition str_int :: "int \<Rightarrow> string" where
  "str_int i = (if i < 0 then CHR ''-'' # str_nat (nat (- i)) else str_nat (nat i))"

text \<open>
  Text-mode reading (\<^verbatim>\<open>Path.read_text\<close>) translates the line endings CR LF and CR to LF.
  Writing is modelled for a POSIX host, where \<^verbatim>\<open>os.linesep\<close> is LF and text is written as
  it is.
\<close>

fun universal_newlines :: "string \<Rightarrow> string" where
  "universal_newlines [] = []"
| "universal_newlines (c # cs) =
     (if c = CR then
        (case cs of
           [] \<Rightarrow> [LF]
         | d # ds \<Rightarrow> if d = LF then LF # universal_newlines ds
                    else LF # universal_newlines (d # ds))
      else c # universal_newlines cs)"

section \<open>Exceptions\<close>

text \<open>
  Every exception the modelled code can raise is a value. \<open>KeyError\<close> carries the missing
  key, \<open>IndexError\<close> the replacement index of a format field, the others their message.
  \<open>Unmodelled\<close> marks a path of the Python library that this development does not follow
  (format conversions and specifications, attribute access on a format argument).
\<close>

datatype error =
    FileNotFoundError string
  | IsADirectoryError string
  | NotADirectoryError string
  | FileExistsError string
  | KeyError string
  | ValueError string
  | IndexError string
  | AttributeError string
  | ExternalError string
  | Unmodelled string

text \<open>
  \<^verbatim>\<open>repr\<close> of a string that has no quote, backslash or unprintable character: the
  string between single quotes.
\<close>

definition quoted :: "string \<Rightarrow> string" where
  "quoted s = [CHR 0x27] @ s @ [CHR 0x27]"

text \<open>\<^verbatim>\<open>str(exc)\<close>: the message; for a \<open>KeyError\<close> the \<^verbatim>\<open>repr\<close> of the key.\<close>

fun str_exc :: "error \<Rightarrow> string" where
  "str_exc (FileNotFoundError m) = m"
| "str_exc (IsADirectoryError m) = m"
| "str_exc (NotADirectoryError m) = m"
| "str_exc (FileExistsError m) = m"
| "str_exc (KeyError k) = quoted k"
| "str_exc (ValueError m) = m"
| "str_exc (IndexError i) =
     ''Replacement index '' @ i @ '' out of range for positional args tuple''"
| "str_exc (AttributeError m) = m"
| "str_exc (ExternalError m) = m"
| "str_exc (Unmodelled m) = m"

section \<open>\<^verbatim>\<open>str.format\<close> with keyword arguments\<close>

text \<open>
  \<^verbatim>\<open>SERVER_MODULE_TEMPLATE.format(host=..., port=..., model=...)\<close> is the only rendering
  step of the integrator. The model follows CPython's left-to-right scan of the format
  string: literal text is copied, \<^verbatim>\<open>{{\<close> and \<^verbatim>\<open>}}\<close> stand for one brace, a lone
  \<^verbatim>\<open>}\<close> is a \<open>ValueError\<close>, and \<^verbatim>\<open>{name}\<close> is replaced by the keyword argument of that name.
  The name of a field ends at the first \<^verbatim>\<open>.\<close> or \<^verbatim>\<open>[\<close>; a name that is no keyword raises
  \<open>KeyError\<close>, an empty or numeric name addresses a positional argument, of which there are
  none, and raises \<open>IndexError\<close>.
\<close>

datatype pyval = PStr string | PInt int

fun str_val :: "pyval \<Rightarrow> string" where
  "str_val (PStr s) = s"
| "str_val (PInt i) = str_int i"

type_synonym kwargs = "(string \<times> pyval) list"

text \<open>
  The scan of one replacement field, after its opening brace: up to the first \<^verbatim>\<open>}\<close>,
  \<^verbatim>\<open>:\<close> or \<^verbatim>\<open>!\<close> outside square brackets. The flag is set while the scan is inside
  \<^verbatim>\<open>[...]\<close>.
\<close>

fun parse_field :: "bool \<Rightarrow> string \<Rightarrow> string \<Rightarrow> error + (string \<times> char \<times> string)" where
  "parse_field inb acc [] = Inl (ValueError ''expected '}' before end of string'')"
| "parse_field inb acc (c # cs) =
     (if inb then parse_field (c \<noteq> CHR '']'') (c # acc) cs
      else if c = CHR ''{'' then Inl (ValueError ''unexpected '{' in field name'')
      else if c = CHR ''['' then parse_field True (c # acc) cs
      else if c = CHR ''}'' \<or> c = CHR '':'' \<or> c = CHR ''!'' then Inr (rev acc, c, cs)
      else parse_field False (c # acc) cs)"

definition is_digit :: "char \<Rightarrow> bool" where
  "is_digit c = ((48::nat) \<le> of_char c \<and> of_char c \<le> (57::nat))"

definition get_field_object :: "kwargs \<Rightarrow> string \<Rightarrow> error + string" where
  "get_field_object kw field_name =
     (let first = takeWhile (\<lambda>c. c \<noteq> CHR ''.'' \<and> c \<noteq> CHR ''['') field_name;
          rest = dropWhile (\<lambda>c. c \<noteq> CHR ''.'' \<and> c \<noteq> CHR ''['') field_name
      in if first = [] then Inl (IndexError ''0'')
         else if list_all is_digit first then Inl (IndexError first)
         else (case map_of kw first of
                 None \<Rightarrow> Inl (KeyError first)
               | Some v \<Rightarrow> if rest = [] then Inr (str_val v)
                          else Inl (Unmodelled ''attribute or item of a format argument'')))"

definition render_field :: "kwargs \<Rightarrow> string \<Rightarrow> char \<Rightarrow> error + string" where
  "render_field kw field_name terminator =
     (if terminator = CHR ''}'' then get_field_object kw field_name
      else Inl (Unmodelled ''conversion or format specification''))"

text \<open>Literal text of a format string: text without a brace.\<close>

definition brace_free :: "string \<Rightarrow> bool" where
  "brace_free s = list_all (\<lambda>c. c \<noteq> CHR ''{'' \<and> c \<noteq> CHR ''}'') s"

lemma parse_field_shorter:
  "parse_field inb acc cs = Inr (name, t, rest) \<Longrightarrow> length rest < length cs"
  by (induction inb acc cs rule: parse_field.induct) (auto split: if_splits)

function py_format_from :: "kwargs \<Rightarrow> string \<Rightarrow> string \<Rightarrow> error + string" where
  "py_format_from kw out [] = Inr (rev out)"
| "py_format_from kw out (c # cs) =
     (if c = CHR ''}'' then
        (case cs of
           [] \<Rightarrow> Inl (ValueError ''Single '}' encountered in format string'')
         | d # ds \<Rightarrow> if d = CHR ''}'' then py_format_from kw (CHR ''}'' # out) ds
                    else Inl (ValueError ''Single '}' encountered in format string''))
      else if c = CHR ''{'' then
        (case cs of
           [] \<Rightarrow> Inl (ValueError ''Single '{' encountered in format string'')
         | d # ds \<Rightarrow>
             if d = CHR ''{'' then py_format_from kw (CHR ''{'' # out) ds
             else (case parse_field False [] (d # ds) of
                     Inl e \<Rightarrow> Inl e
                   | Inr (field_name, terminator, rest) \<Rightarrow>
                       (case render_field kw field_name terminator of
                          Inl e \<Rightarrow> Inl e
                        | Inr s \<Rightarrow> py_format_from kw (rev s @ out) rest)))
      else py_format_from kw (c # out) cs)"
  by pat_completeness auto
termination
  by (relation "measure (\<lambda>(kw, out, s). length s)")
     (auto simp del: parse_field.simps dest!: parse_field_shorter)

definition py_format :: "string \<Rightarrow> kwargs \<Rightarrow> error + string" where
  "py_format template kw = py_format_from kw [] template"

section \<open>The bridge server template\<close>

text \<open>
  The text of \<^verbatim>\<open>SERVER_MODULE_TEMPLATE\<close>, line by line. The Python literal is not a raw
  string, so the escape in the \<^verbatim>\<open>return\<close> statement of \<^verbatim>\<open>_normalise_prompt\<close> is a line
  break of the template itself: that statement occupies two lines here.
\<close>

definition unlines :: "string list \<Rightarrow> string" where
  "unlines ls = concat (map (\<lambda>l. l @ [LF]) ls)"

text \<open>The template: the module docstring, the imports and the constants (source lines 30 to 47).\<close>

definition template_header :: "string list" where
  \<open>template_header = [
    ''"""A tiny HTTP server that speaks a subset of the OpenAI API using OLAMA."""'',
    ''import json'',
    ''import os'',
    ''import socket'',
    ''import subprocess'',
    ''import threading'',
    ''import uuid'',
    ''from http.server import BaseHTTPRequestHandler, ThreadingHTTPServer'',
    ''from typing import Any, Dict, Tuple'',
    '''',
    ''HOST = os.environ.get("CODEX_LOCAL_SERVER_HOST", "{host}")'',
    ''PORT = int(os.environ.get("CODEX_LOCAL_SERVER_PORT", "{port}"))'',
    ''DEFAULT_MODEL = os.environ.get("CODEX_LOCAL_MODEL", "{model}")'',
    ''OLAMA_BIN = os.environ.get("OLAMA_BIN", "olama")'',
    ''_API_BASE = f"http://{host}:{port}/v1"'',
    ''_SERVER_THREAD: threading.Thread | None = None'',
    ''_SERVER: ThreadingHTTPServer | None = None'',
    ''''
  ]\<close>

text \<open>The template: the function \<^verbatim>\<open>_normalise_prompt\<close> (source lines 48 to 62).\<close>

definition template_normalise_prompt :: "string list" where
  \<open>template_normalise_prompt = [
    '''',
    ''def _normalise_prompt(messages: Any, prompt: str | None) -> Tuple[str, str]:'',
    ''    if prompt:'',
    ''        return prompt, "completion"'',
    ''    if not isinstance(messages, list):'',
    ''        raise ValueError("messages must be a list of chat messages")'',
    ''    rendered = []'',
    ''    for item in messages:'',
    ''        role = item.get("role", "user")'',
    ''        content = item.get("content", "")'',
    ''        rendered.append(f"[{role.upper()}] {content}")'',
    ''    rendered.append("[ASSISTANT]")'',
    ''    return "'',
    ''".join(rendered), "chat"'',
    '''',
    ''''
  ]\<close>

text \<open>The template: the function \<^verbatim>\<open>_run_olama\<close> (source lines 63 to 77).\<close>

definition template_run_olama :: "string list" where
  \<open>template_run_olama = [
    ''def _run_olama(prompt: str, model: str) -> str:'',
    ''    cmd = [OLAMA_BIN, "run", model, "--prompt", prompt]'',
    ''    proc = subprocess.run('',
    ''        cmd,'',
    ''        check=False,'',
    ''        capture_output=True,'',
    ''        text=True,'',
    ''    )'',
    ''    if proc.returncode != 0:'',
    ''        raise RuntimeError('',
    ''            "OLAMA command failed", cmd, proc.returncode, proc.stderr.strip()'',
    ''        )'',
    ''    return proc.stdout.strip()'',
    '''',
    ''''
  ]\<close>

text \<open>The template: the class \<^verbatim>\<open>_RequestHandler\<close> (source lines 78 to 146).\<close>

definition template_request_handler :: "string list" where
  \<open>template_request_handler = [
    ''class _RequestHandler(BaseHTTPRequestHandler):'',
    ''    server_version = "CodexLocalModel/0.1"'',
    '''',
    ''    def _set_headers(self) -> None:'',
    ''        self.send_response(200)'',
    ''        self.send_header("Content-Type", "application/json")'',
    ''        self.end_headers()'',
    '''',
    ''    def _send_error(self, message: str, status: int = 500) -> None:'',
    ''        self.send_response(status)'',
    ''        self.send_header("Content-Type", "application/json")'',
    ''        self.end_headers()'',
    ''        payload = {"error": {"message": message, "type": "olama_error"}}'',
    ''        self.wfile.write(json.dumps(payload).encode("utf-8"))'',
    '''',
    ''    def _read_json(self) -> Dict[str, Any]:'',
    ''        length = int(self.headers.get("Content-Length", "0"))'',
    ''        body = self.rfile.read(length).decode("utf-8")'',
    ''        return json.loads(body or "{}")'',
    '''',
    ''    def do_POST(self) -> None:  # noqa: N802 (http method name)'',
    ''        try:'',
    ''            payload = self._read_json()'',
    ''            model = payload.get("model") or DEFAULT_MODEL'',
    ''            prompt, mode = _normalise_prompt('',
    ''                payload.get("messages"), payload.get("prompt")'',
    ''            )'',
    ''            completion = _run_olama(prompt, model)'',
    ''            response_id = f"local-codex-{uuid.uuid4()}"'',
    ''            if mode == "chat":'',
    ''                body = {'',
    ''                    "id": response_id,'',
    ''                    "object": "chat.completion",'',
    ''                    "model": model,'',
    ''                    "choices": ['',
    ''                        {'',
    ''                            "index": 0,'',
    ''                            "finish_reason": "stop",'',
    ''                            "message": {'',
    ''                                "role": "assistant",'',
    ''                                "content": completion,'',
    ''                            },'',
    ''                        }'',
    ''                    ],'',
    ''                }'',
    ''            else:'',
    ''                body = {'',
    ''                    "id": response_id,'',
    ''                    "object": "text_completion",'',
    ''                    "model": model,'',
    ''                    "choices": ['',
    ''                        {'',
    ''                            "index": 0,'',
    ''                            "finish_reason": "stop",'',
    ''                            "text": completion,'',
    ''                        }'',
    ''                    ],'',
    ''                }'',
    ''            self._set_headers()'',
    ''            self.wfile.write(json.dumps(body).encode("utf-8"))'',
    ''        except Exception as exc:  # pragma: no cover - defensive'',
    ''            self._send_error(str(exc))'',
    '''',
    ''    def log_message(self, format: str, *args: object) -> None:  # noqa: A003'',
    ''        if os.environ.get("CODEX_LOCAL_SERVER_LOG", "0") not in {"1", "true", "True"}:'',
    ''            return'',
    ''        super().log_message(format, *args)'',
    '''',
    ''''
  ]\<close>

text \<open>The template: the function \<^verbatim>\<open>_start_server\<close> (source lines 147 to 170).\<close>

definition template_start_server :: "string list" where
  \<open>template_start_server = [
    ''def _start_server() -> None:'',
    ''    global _SERVER_THREAD, _SERVER'',
    ''    if _SERVER_THREAD and _SERVER_THREAD.is_alive():'',
    ''        return'',
    ''    with socket.socket(socket.AF_INET, socket.SOCK_STREAM) as sock:'',
    ''        try:'',
    ''            sock.bind((HOST, PORT))'',
    ''        except OSError as exc:'',
    ''            raise RuntimeError('',
    ''                f"Port {PORT} on {HOST} is already in use; "'',
    ''                "set CODEX_LOCAL_SERVER_PORT to override"'',
    ''            ) from exc'',
    ''    server = ThreadingHTTPServer((HOST, PORT), _RequestHandler)'',
    ''    _SERVER = server'',
    '''',
    ''    def _serve() -> None:'',
    ''        with server:'',
    ''            server.serve_forever()'',
    '''',
    ''    thread = threading.Thread(target=_serve, daemon=True)'',
    ''    thread.start()'',
    ''    _SERVER_THREAD = thread'',
    '''',
    ''''
  ]\<close>

text \<open>The template: the function \<^verbatim>\<open>ensure_local_model_server\<close> and the export list (source lines 171 to 179).\<close>

definition template_bootstrap_hook :: "string list" where
  \<open>template_bootstrap_hook = [
    ''def ensure_local_model_server() -> Dict[str, str]:'',
    ''    """Ensure the OLAMA-backed bridge server is running."""'',
    ''    _start_server()'',
    ''    os.environ.setdefault("OPENAI_API_BASE", _API_BASE)'',
    ''    os.environ.setdefault("OPENAI_API_KEY", "olama-local")'',
    ''    return {"host": HOST, "port": str(PORT), "base_url": _API_BASE}'',
    '''',
    '''',
    ''__all__ = ["ensure_local_model_server"]''
  ]\<close>

definition SERVER_MODULE_TEMPLATE_lines :: "string list" where
  "SERVER_MODULE_TEMPLATE_lines =
     template_header @ template_normalise_prompt @ template_run_olama
     @ template_request_handler @ template_start_server @ template_bootstrap_hook"

definition SERVER_MODULE_TEMPLATE :: string where
  "SERVER_MODULE_TEMPLATE = unlines SERVER_MODULE_TEMPLATE_lines"

text \<open>The rendering step of \<open>install_server_module\<close>.\<close>

definition render_server_module :: "string \<Rightarrow> int \<Rightarrow> string \<Rightarrow> error + string" where
  "render_server_module host port model =
     py_format SERVER_MODULE_TEMPLATE
       [(''host'', PStr host), (''port'', PInt port), (''model'', PStr model)]"

section \<open>The file system\<close>

text \<open>
  A path is the list of its components below the root directory; the file system maps a
  path to a regular file with its content or to a directory. The root directory always
  exists. The map stands for a well-formed tree on a POSIX host on which the process may
  read and write everywhere: permission and device errors, symbolic links and concurrent
  changes by other processes are outside the model. File content is text; encoding and
  decoding as UTF-8 are the identity on it.
\<close>

type_synonym path = "string list"

datatype node = File string | Dir

type_synonym filesystem = "path \<rightharpoonup> node"

definition lookup :: "filesystem \<Rightarrow> path \<Rightarrow> node option" where
  "lookup f p = (if p = [] then Some Dir else f p)"

text \<open>\<^verbatim>\<open>Path.exists\<close> and \<^verbatim>\<open>Path.is_dir\<close>.\<close>

definition path_exists :: "filesystem \<Rightarrow> path \<Rightarrow> bool" where
  "path_exists f p = (lookup f p \<noteq> None)"

definition is_dir :: "filesystem \<Rightarrow> path \<Rightarrow> bool" where
  "is_dir f p = (lookup f p = Some Dir)"

text \<open>\<^verbatim>\<open>str(path)\<close>, \<^verbatim>\<open>path.name\<close> and \<^verbatim>\<open>path.parent\<close>.\<close>

definition path_str :: "path \<Rightarrow> string" where
  "path_str p = (if p = [] then ''/'' else concat (map (\<lambda>c. ''/'' @ c) p))"

definition name_of :: "path \<Rightarrow> string" where
  "name_of p = (if p = [] then [] else last p)"

definition parent :: "path \<Rightarrow> path" where
  "parent p = butlast p"

text \<open>
  \<^verbatim>\<open>path.suffix\<close>: the part of the name from its last dot on, when that dot is neither the
  first nor the last character of the name.
\<close>

definition suffix_of :: "path \<Rightarrow> string" where
  "suffix_of p =
     (let name = name_of p;
          k = length (takeWhile (\<lambda>c. c \<noteq> CHR ''.'') (rev name))
      in if CHR ''.'' \<in> set name \<and> 0 < k \<and> Suc k < length name
         then drop (length name - Suc k) name else [])"

text \<open>
  \<^verbatim>\<open>path.with_suffix(suffix)\<close>: a suffix with a path separator, a non-empty suffix that
  does not begin with a dot, the suffix \<^verbatim>\<open>.\<close> and a path without a name are rejected.
\<close>

definition with_suffix :: "path \<Rightarrow> string \<Rightarrow> error + path" where
  "with_suffix p new_suffix =
     (if CHR ''/'' \<in> set new_suffix then Inl (ValueError (''Invalid suffix '' @ quoted new_suffix))
      else if (new_suffix \<noteq> [] \<and> \<not> startswith new_suffix ''.'') \<or> new_suffix = ''.''
        then Inl (ValueError (''Invalid suffix '' @ quoted new_suffix))
      else if name_of p = []
        then Inl (ValueError (''PosixPath('' @ quoted (path_str p) @ '') has an empty name''))
      else
        (let name = name_of p; old_suffix = suffix_of p
         in Inr (parent p @ [take (length name - length old_suffix) name @ new_suffix])))"

text \<open>
  \<^verbatim>\<open>Path.read_text\<close>, \<^verbatim>\<open>Path.write_text\<close> and \<^verbatim>\<open>shutil.copy2\<close>. The copy is of the bytes
  of the file: no line-ending translation takes place.
\<close>

definition read_text :: "filesystem \<Rightarrow> path \<Rightarrow> error + string" where
  "read_text f p =
     (case lookup f p of
        None \<Rightarrow> Inl (FileNotFoundError (path_str p))
      | Some Dir \<Rightarrow> Inl (IsADirectoryError (path_str p))
      | Some (File content) \<Rightarrow> Inr (universal_newlines content))"

definition write_text :: "filesystem \<Rightarrow> path \<Rightarrow> string \<Rightarrow> error + filesystem" where
  "write_text f p content =
     (case lookup f p of
        Some Dir \<Rightarrow> Inl (IsADirectoryError (path_str p))
      | _ \<Rightarrow> Inr (f(p \<mapsto> File content)))"

definition copy2 :: "filesystem \<Rightarrow> path \<Rightarrow> path \<Rightarrow> error + filesystem" where
  "copy2 f src dst =
     (case lookup f src of
        None \<Rightarrow> Inl (FileNotFoundError (path_str src))
      | Some Dir \<Rightarrow> Inl (IsADirectoryError (path_str src))
      | Some (File content) \<Rightarrow>
          (case lookup f dst of
             Some Dir \<Rightarrow>
               (case lookup f (dst @ [name_of src]) of
                  Some Dir \<Rightarrow> Inl (IsADirectoryError (path_str (dst @ [name_of src])))
                | _ \<Rightarrow> Inr (f(dst @ [name_of src] \<mapsto> File content)))
           | Some (File old) \<Rightarrow>
               if src = dst then Inl (ExternalError (path_str src @ '' and itself are the same file''))
               else Inr (f(dst \<mapsto> File content))
           | None \<Rightarrow> Inr (f(dst \<mapsto> File content))))"

text \<open>
  \<^verbatim>\<open>os.mkdir\<close>, and \<^verbatim>\<open>Path.mkdir(parents=True, exist_ok=True)\<close>, which creates the missing
  ancestors first and accepts a directory that is already there.
\<close>

definition os_mkdir :: "filesystem \<Rightarrow> path \<Rightarrow> error + filesystem" where
  "os_mkdir f p =
     (if lookup f p \<noteq> None then Inl (FileExistsError (path_str p))
      else (case lookup f (parent p) of
              None \<Rightarrow> Inl (FileNotFoundError (path_str p))
            | Some (File c) \<Rightarrow> Inl (NotADirectoryError (path_str p))
            | Some Dir \<Rightarrow> Inr (f(p \<mapsto> Dir))))"

function mkdir_parents :: "filesystem \<Rightarrow> path \<Rightarrow> error + filesystem" where
  "mkdir_parents f p =
     (case os_mkdir f p of
        Inr f' \<Rightarrow> Inr f'
      | Inl (FileNotFoundError m) \<Rightarrow>
          (if p = [] then Inl (FileNotFoundError m)
           else (case mkdir_parents f (parent p) of
                   Inl e \<Rightarrow> Inl e
                 | Inr f' \<Rightarrow>
                     (case os_mkdir f' p of
                        Inr f'' \<Rightarrow> Inr f''
                      | Inl e \<Rightarrow> if is_dir f' p then Inr f' else Inl e)))
      | Inl e \<Rightarrow> if is_dir f p then Inr f else Inl e)"
  by pat_completeness auto
termination
  by (relation "measure (\<lambda>(f, p). length p)") (auto simp: parent_def)

declare mkdir_parents.simps [simp del]

section \<open>The integrator\<close>

text \<open>The dataclass \<^verbatim>\<open>CodexLocalModelIntegrator\<close>: its fields are the configuration.\<close>

record config =
  codex_root :: "string option"
  model :: string
  host :: string
  port :: int
  dry_run :: bool
  backup_suffix :: string

text \<open>The state an operation runs in: the file system and the lines printed so far.\<close>

record world =
  fs :: filesystem
  stdout :: "string list"

definition print :: "string \<Rightarrow> world \<Rightarrow> world" where
  "print line w = w\<lparr>stdout := stdout w @ [line]\<rparr>"

subsection \<open>\<^verbatim>\<open>locate_codex\<close>\<close>

definition DEFAULT_INSTALL_LOCATIONS :: "string list" where
  "DEFAULT_INSTALL_LOCATIONS =
     [''~/.codex'',
      ''~/Library/Application Support/Codex'',
      ''~/Applications/Codex.app/Contents/Resources/app'',
      ''~/codex'',
      ''/usr/local/lib/codex'',
      ''/opt/codex'']"

text \<open>
  \<^verbatim>\<open>Path(p).expanduser().resolve()\<close> depends on the home directory, the working directory
  and the links of the host; \<open>locate_codex\<close> takes it as the parameter \<open>resolve\<close>. The
  environment variable \<^verbatim>\<open>CODEX_INSTALL_DIR\<close> is the parameter \<open>env_dir\<close>. The field
  \<open>codex_root\<close> holds a \<^verbatim>\<open>Path\<close> when it is set, and a \<^verbatim>\<open>Path\<close> object is always true.
\<close>

definition locate_codex ::
  "(string \<Rightarrow> path) \<Rightarrow> string option \<Rightarrow> config \<Rightarrow> filesystem \<Rightarrow> error + path" where
  "locate_codex resolve env_dir cfg f =
     (case codex_root cfg of
        Some given \<Rightarrow>
          (let root = resolve given
           in if \<not> path_exists f root
              then Inl (FileNotFoundError (''Provided Codex path does not exist: '' @ path_str root))
              else Inr root)
      | None \<Rightarrow>
          (case (case env_dir of
                   None \<Rightarrow> None
                 | Some d \<Rightarrow> if d \<noteq> [] \<and> path_exists f (resolve d) then Some (resolve d) else None) of
             Some root \<Rightarrow> Inr root
           | None \<Rightarrow>
               (case find (path_exists f) (map resolve DEFAULT_INSTALL_LOCATIONS) of
                  Some p \<Rightarrow> Inr p
                | None \<Rightarrow>
                    Inl (FileNotFoundError
                      (''Unable to locate Codex installation. Provide --codex-path explicitly '' @
                       ''or set CODEX_INSTALL_DIR.'')))))"

text \<open>
  A resolution for hosts without symbolic links, for absolute paths and paths below the
  home directory that have no \<^verbatim>\<open>.\<close> or \<^verbatim>\<open>..\<close> component: the concrete inputs below use it.
\<close>

fun split_slash :: "string \<Rightarrow> string \<Rightarrow> string list" where
  "split_slash cur [] = (if cur = [] then [] else [rev cur])"
| "split_slash cur (c # cs) =
     (if c = CHR ''/'' then (if cur = [] then split_slash [] cs else rev cur # split_slash [] cs)
      else split_slash (c # cur) cs)"

definition resolve_under :: "path \<Rightarrow> string \<Rightarrow> path" where
  "resolve_under home p =
     (if p = ''~'' then home
      else if startswith p ''~/'' then home @ split_slash [] (drop 2 p)
      else split_slash [] p)"

subsection \<open>\<^verbatim>\<open>_write_file\<close> and \<^verbatim>\<open>install_server_module\<close>\<close>

definition write_file :: "config \<Rightarrow> path \<Rightarrow> string \<Rightarrow> world \<Rightarrow> (error + unit) \<times> world" where
  "write_file cfg p content w =
     (if dry_run cfg then (Inr (), print (''[dry-run] Would write '' @ path_str p) w)
      else (case mkdir_parents (fs w) (parent p) of
              Inl e \<Rightarrow> (Inl e, w)
            | Inr f1 \<Rightarrow>
                (case write_text f1 p content of
                   Inl e \<Rightarrow> (Inl e, w\<lparr>fs := f1\<rparr>)
                 | Inr f2 \<Rightarrow> (Inr (), w\<lparr>fs := f2\<rparr>))))"

text \<open>
  The backup step shared by both patch operations: the backup path is the target with
  the backup suffix appended to its own suffix, and the copy is made only when nothing
  exists at the backup path.
\<close>

definition backup_path_of :: "config \<Rightarrow> path \<Rightarrow> error + path" where
  "backup_path_of cfg target = with_suffix target (suffix_of target @ backup_suffix cfg)"

definition backup_once :: "config \<Rightarrow> path \<Rightarrow> filesystem \<Rightarrow> error + filesystem" where
  "backup_once cfg target f =
     (case backup_path_of cfg target of
        Inl e \<Rightarrow> Inl e
      | Inr backup \<Rightarrow> if \<not> path_exists f backup then copy2 f target backup else Inr f)"

definition server_path_of :: "path \<Rightarrow> path" where
  "server_path_of package_dir = package_dir @ [''local_model_server.py'']"

definition install_server_module :: "config \<Rightarrow> path \<Rightarrow> world \<Rightarrow> (error + path) \<times> world" where
  "install_server_module cfg package_dir w =
     (let server_path = server_path_of package_dir
      in case (if path_exists (fs w) server_path \<and> \<not> dry_run cfg
               then backup_once cfg server_path (fs w) else Inr (fs w)) of
           Inl e \<Rightarrow> (Inl e, w)
         | Inr f1 \<Rightarrow>
             (case render_server_module (host cfg) (port cfg) (model cfg) of
                Inl e \<Rightarrow> (Inl e, w\<lparr>fs := f1\<rparr>)
              | Inr module_text \<Rightarrow>
                  (case write_file cfg server_path module_text (w\<lparr>fs := f1\<rparr>) of
                     (Inl e, w2) \<Rightarrow> (Inl e, w2)
                   | (Inr u, w2) \<Rightarrow> (Inr server_path, w2))))"

subsection \<open>\<^verbatim>\<open>inject_bootstrap\<close>\<close>

definition bootstrap_name :: string where
  "bootstrap_name = ''ensure_local_model_server''"

text \<open>
  The injected block: the dedented text of the literal in \<open>inject_bootstrap\<close> without its
  first and last line break, for a package name that has no line break of its own.
\<close>

definition injection :: "string \<Rightarrow> string" where
  "injection package_name = join [LF]
     [''# >>> CODEx local model integration (auto-generated)'',
      ''try:'',
      ''    from .local_model_server import ensure_local_model_server  # type: ignore'',
      ''except Exception:  # pragma: no cover - fallback for script entrypoints'',
      ''    from '' @ package_name @ ''.local_model_server import ensure_local_model_server  # type: ignore'',
      ''ensure_local_model_server()'',
      ''# <<< CODEx local model integration (auto-generated)'']"

definition is_skippable :: "string \<Rightarrow> bool" where
  "is_skippable stripped =
     (stripped = [] \<or> startswith stripped ''#'' \<or> startswith stripped [CHR 0x22]
      \<or> startswith stripped [CHR 0x27])"

definition is_import :: "string \<Rightarrow> bool" where
  "is_import stripped = (startswith stripped ''import '' \<or> startswith stripped ''from '')"

text \<open>
  The \<^verbatim>\<open>for ... else\<close> loop over the lines: the state is \<open>insert_at\<close> and the index of the
  line; the result tells whether the loop left through \<^verbatim>\<open>break\<close>.
\<close>

fun scan_lines :: "nat \<Rightarrow> nat \<Rightarrow> string list \<Rightarrow> nat \<times> bool" where
  "scan_lines insert_at index [] = (insert_at, False)"
| "scan_lines insert_at index (line # rest) =
     (let stripped = strip line
      in if is_skippable stripped then scan_lines insert_at (index + 1) rest
         else if is_import stripped then scan_lines (index + 1) (index + 1) rest
         else (index, True))"

definition find_insert_at :: "string list \<Rightarrow> nat" where
  "find_insert_at lines =
     (case scan_lines 0 0 lines of (insert_at, broke) \<Rightarrow> if broke then insert_at else length lines)"


definition patched_text :: "string \<Rightarrow> string \<Rightarrow> string" where
  "patched_text package_name text =
     (let lines = splitlines text;
          insert_at = find_insert_at lines;
          new_lines = take insert_at lines @ [injection package_name, []] @ drop insert_at lines
      in join [LF] new_lines)"

definition inject_bootstrap :: "config \<Rightarrow> path \<Rightarrow> string \<Rightarrow> world \<Rightarrow> (error + unit) \<times> world" where
  "inject_bootstrap cfg entrypoint package_name w =
     (case read_text (fs w) entrypoint of
        Inl e \<Rightarrow> (Inl e, w)
      | Inr text \<Rightarrow>
          if contains bootstrap_name text then (Inr (), w)
          else
            (let new_text = patched_text package_name text
             in if dry_run cfg
                then (Inr (), print (''[dry-run] Would update '' @ path_str entrypoint) w)
                else (case backup_once cfg entrypoint (fs w) of
                        Inl e \<Rightarrow> (Inl e, w)
                      | Inr f1 \<Rightarrow>
                          (case write_text f1 entrypoint new_text of
                             Inl e \<Rightarrow> (Inl e, w\<lparr>fs := f1\<rparr>)
                           | Inr f2 \<Rightarrow> (Inr (), w\<lparr>fs := f2\<rparr>)))))"

subsection \<open>\<^verbatim>\<open>resolve_package_dir\<close> and \<^verbatim>\<open>resolve_entrypoint\<close>\<close>

text \<open>
  The order in which the host enumerates a directory is the parameter \<open>listdir\<close>: the
  names of the entries of a directory of the file system. \<open>iterdir\<close> is \<^verbatim>\<open>Path.iterdir\<close>,
  \<open>glob_py\<close> is \<^verbatim>\<open>Path.glob("*.py")\<close>, which yields nothing for a path that is no directory.
\<close>

definition iterdir :: "(filesystem \<Rightarrow> path \<Rightarrow> string list) \<Rightarrow> filesystem \<Rightarrow> path \<Rightarrow> error + path list" where
  "iterdir listdir f p =
     (case lookup f p of
        None \<Rightarrow> Inl (FileNotFoundError (path_str p))
      | Some (File c) \<Rightarrow> Inl (NotADirectoryError (path_str p))
      | Some Dir \<Rightarrow> Inr (map (\<lambda>n. p @ [n]) (listdir f p)))"

definition glob_py :: "(filesystem \<Rightarrow> path \<Rightarrow> string list) \<Rightarrow> filesystem \<Rightarrow> path \<Rightarrow> path list" where
  "glob_py listdir f p =
     (if is_dir f p then map (\<lambda>n. p @ [n]) (filter (\<lambda>n. endswith n ''.py'') (listdir f p)) else [])"

text \<open>
  The generator \<^verbatim>\<open>_candidate_package_dirs\<close> is consumed lazily by \<open>resolve_package_dir\<close>:
  a candidate is yielded when it exists and accepted when it holds \<^verbatim>\<open>__init__.py\<close>; the
  directory is enumerated only when the three fixed candidates are not accepted.
\<close>

definition has_init :: "filesystem \<Rightarrow> path \<Rightarrow> bool" where
  "has_init f candidate = path_exists f (candidate @ [''__init__.py''])"

definition resolve_package_dir ::
  "(filesystem \<Rightarrow> path \<Rightarrow> string list) \<Rightarrow> filesystem \<Rightarrow> path \<Rightarrow> error + path" where
  "resolve_package_dir listdir f root =
     (if path_exists f (root @ [''codex'']) \<and> has_init f (root @ [''codex''])
        then Inr (root @ [''codex''])
      else if path_exists f (root @ [''src'', ''codex'']) \<and> has_init f (root @ [''src'', ''codex''])
        then Inr (root @ [''src'', ''codex''])
      else if path_exists f (root @ [''lib'', ''codex'']) \<and> has_init f (root @ [''lib'', ''codex''])
        then Inr (root @ [''lib'', ''codex''])
      else
        (case iterdir listdir f root of
           Inl e \<Rightarrow> Inl e
         | Inr children \<Rightarrow>
             (case find (\<lambda>child. is_dir f child \<and> startswith (lower (name_of child)) ''codex''
                                  \<and> has_init f child) children of
                Some child \<Rightarrow> Inr child
              | None \<Rightarrow>
                  Inl (FileNotFoundError
                         (''Could not find a Codex python package under '' @ path_str root @ ''. '' @
                          ''Expected to see a directory containing an __init__.py file.'')))))"

definition main_guard :: string where
  \<open>main_guard = ''__name__ == "__main__"''\<close>

fun scan_for_guard :: "filesystem \<Rightarrow> path list \<Rightarrow> (error + path) option" where
  "scan_for_guard f [] = None"
| "scan_for_guard f (py_file # rest) =
     (case read_text f py_file of
        Inl e \<Rightarrow> Some (Inl e)
      | Inr text \<Rightarrow> if contains main_guard text then Some (Inr py_file) else scan_for_guard f rest)"

definition resolve_entrypoint ::
  "(filesystem \<Rightarrow> path \<Rightarrow> string list) \<Rightarrow> filesystem \<Rightarrow> path \<Rightarrow> error + path" where
  "resolve_entrypoint listdir f package_dir =
     (if path_exists f (package_dir @ [''__main__.py'']) then Inr (package_dir @ [''__main__.py''])
      else
        (case find (\<lambda>name. path_exists f (package_dir @ [name])) [''cli.py'', ''main.py'', ''app.py''] of
           Some name \<Rightarrow> Inr (package_dir @ [name])
         | None \<Rightarrow>
             (case scan_for_guard f (glob_py listdir f package_dir) of
                Some r \<Rightarrow> r
              | None \<Rightarrow>
                  Inl (FileNotFoundError
                         (''Unable to locate Codex CLI entrypoint under '' @ path_str package_dir @ ''. '' @
                          ''Tried __main__.py, cli.py, main.py and files with a __main__ guard.'')))))"

subsection \<open>\<^verbatim>\<open>create_integration_manifest\<close> and \<^verbatim>\<open>run\<close>\<close>

text \<open>
  \<^verbatim>\<open>server_path.relative_to(root)\<close>, and the manifest: the JSON object of the five entries,
  with sorted keys and an indentation of two. The JSON encoding of a string is the
  parameter \<open>dumps\<close>.
\<close>

definition relative_to :: "path \<Rightarrow> path \<Rightarrow> error + string" where
  "relative_to p root =
     (if prefix root p then Inr (if p = root then ''.'' else join ''/'' (drop (length root) p))
      else Inl (ValueError (path_str p @ '' is not in the subpath of '' @ path_str root)))"

definition manifest_text :: "(string \<Rightarrow> string) \<Rightarrow> config \<Rightarrow> string \<Rightarrow> string" where
  \<open>manifest_text dumps cfg server_module =
     unlines
       [''{'',
        ''  "host": '' @ dumps (host cfg) @ '','',
        ''  "message": "Codex has been patched to use a local OLAMA model.",'',
        ''  "model": '' @ dumps (model cfg) @ '','',
        ''  "port": '' @ str_int (port cfg) @ '','',
        ''  "server_module": '' @ dumps server_module,
        ''}'']\<close>

definition create_integration_manifest ::
  "(string \<Rightarrow> string) \<Rightarrow> config \<Rightarrow> path \<Rightarrow> path \<Rightarrow> world \<Rightarrow> (error + unit) \<times> world" where
  "create_integration_manifest dumps cfg root server_path w =
     (case relative_to server_path root of
        Inl e \<Rightarrow> (Inl e, w)
      | Inr server_module \<Rightarrow>
          write_file cfg (root @ [''codex_local_model_integration.json''])
            (manifest_text dumps cfg server_module) w)"

text \<open>The host of a run: the resolution of paths, the environment and the enumeration.\<close>

record host_env =
  resolve_path :: "string \<Rightarrow> path"
  install_dir :: "string option"
  list_names :: "filesystem \<Rightarrow> path \<Rightarrow> string list"
  json_dumps :: "string \<Rightarrow> string"

definition run :: "host_env \<Rightarrow> config \<Rightarrow> world \<Rightarrow> (error + path) \<times> world" where
  "run env cfg w =
     (case locate_codex (resolve_path env) (install_dir env) cfg (fs w) of
        Inl e \<Rightarrow> (Inl e, w)
      | Inr root \<Rightarrow>
          (case resolve_package_dir (list_names env) (fs w) root of
             Inl e \<Rightarrow> (Inl e, w)
           | Inr package_dir \<Rightarrow>
               (case resolve_entrypoint (list_names env) (fs w) package_dir of
                  Inl e \<Rightarrow> (Inl e, w)
                | Inr entrypoint \<Rightarrow>
                    (case install_server_module cfg package_dir w of
                       (Inl e, w1) \<Rightarrow> (Inl e, w1)
                     | (Inr server_path, w1) \<Rightarrow>
                         (case inject_bootstrap cfg entrypoint (name_of package_dir) w1 of
                            (Inl e, w2) \<Rightarrow> (Inl e, w2)
                          | (Inr u, w2) \<Rightarrow>
                              (case create_integration_manifest (json_dumps env) cfg root
                                      server_path w2 of
                                 (Inl e, w3) \<Rightarrow> (Inl e, w3)
                               | (Inr u', w3) \<Rightarrow> (Inr root, w3)))))))"

section \<open>The generated bridge server\<close>

text \<open>
  The functions below are the ones written in the template. A decoded JSON document is a
  value of \<open>json\<close>; an object holds the items of the decoded dictionary, one per key.
  Numbers are integers. \<open>truthy\<close> is Python's truth value, \<open>dict_get\<close> is
  \<^verbatim>\<open>dict.get(key, default)\<close>.
\<close>

datatype json =
    JNull
  | JBool bool
  | JNum int
  | JStr string
  | JList "json list"
  | JObj "(string \<times> json) list"

fun truthy :: "json \<Rightarrow> bool" where
  "truthy JNull = False"
| "truthy (JBool b) = b"
| "truthy (JNum n) = (n \<noteq> 0)"
| "truthy (JStr s) = (s \<noteq> [])"
| "truthy (JList xs) = (xs \<noteq> [])"
| "truthy (JObj kvs) = (kvs \<noteq> [])"

definition dict_get :: "(string \<times> json) list \<Rightarrow> string \<Rightarrow> json \<Rightarrow> json" where
  "dict_get kvs key dflt = (case map_of kvs key of Some v \<Rightarrow> v | None \<Rightarrow> dflt)"

fun type_name :: "json \<Rightarrow> string" where
  "type_name JNull = ''NoneType''"
| "type_name (JBool b) = ''bool''"
| "type_name (JNum n) = ''int''"
| "type_name (JStr s) = ''str''"
| "type_name (JList xs) = ''list''"
| "type_name (JObj kvs) = ''dict''"

definition no_attribute :: "json \<Rightarrow> string \<Rightarrow> error" where
  "no_attribute v attr =
     AttributeError (quoted (type_name v) @ '' object has no attribute '' @ quoted attr)"

text \<open>
  A value in an f-string is rendered by \<^verbatim>\<open>format(v, "")\<close>: a string as itself, any other
  value by its \<^verbatim>\<open>repr\<close>, which is the parameter \<open>repr\<close>.
\<close>

definition format_value :: "(json \<Rightarrow> string) \<Rightarrow> json \<Rightarrow> string" where
  "format_value repr v = (case v of JStr s \<Rightarrow> s | _ \<Rightarrow> repr v)"

subsection \<open>\<^verbatim>\<open>_normalise_prompt\<close>\<close>

text \<open>The body of the \<^verbatim>\<open>for\<close> loop, for one message.\<close>

definition render_message :: "(json \<Rightarrow> string) \<Rightarrow> json \<Rightarrow> error + string" where
  "render_message repr item =
     (case item of
        JObj kvs \<Rightarrow>
          (let role = dict_get kvs ''role'' (JStr ''user'');
               content = dict_get kvs ''content'' (JStr [])
           in case role of
                JStr r \<Rightarrow> Inr (''['' @ upper r @ ''] '' @ format_value repr content)
              | _ \<Rightarrow> Inl (no_attribute role ''upper''))
      | _ \<Rightarrow> Inl (no_attribute item ''get''))"

fun render_messages :: "(json \<Rightarrow> string) \<Rightarrow> json list \<Rightarrow> error + string list" where
  "render_messages repr [] = Inr []"
| "render_messages repr (item # items) =
     (case render_message repr item of
        Inl e \<Rightarrow> Inl e
      | Inr line \<Rightarrow>
          (case render_messages repr items of
             Inl e \<Rightarrow> Inl e
           | Inr rendered \<Rightarrow> Inr (line # rendered)))"

text \<open>\<^verbatim>\<open>isinstance(v, list)\<close>, and the items a \<^verbatim>\<open>for\<close> loop over a list visits.\<close>

fun isinstance_list :: "json \<Rightarrow> bool" where
  "isinstance_list (JList xs) = True"
| "isinstance_list v = False"

fun list_items :: "json \<Rightarrow> json list" where
  "list_items (JList xs) = xs"
| "list_items v = []"

definition normalise_prompt :: "(json \<Rightarrow> string) \<Rightarrow> json \<Rightarrow> json \<Rightarrow> error + json \<times> string" where
  "normalise_prompt repr messages prompt =
     (if truthy prompt then Inr (prompt, ''completion'')
      else if \<not> isinstance_list messages
        then Inl (ValueError ''messages must be a list of chat messages'')
      else (case render_messages repr (list_items messages) of
              Inl e \<Rightarrow> Inl e
            | Inr rendered \<Rightarrow> Inr (JStr (join [LF] (rendered @ [''[ASSISTANT]''])), ''chat'')))"



subsection \<open>\<^verbatim>\<open>do_POST\<close>\<close>

text \<open>
  The handler answers with a status and a JSON body. What the host supplies is a
  parameter: the decoded request body or the error of reading it (\<open>request\<close>), the
  backing process \<^verbatim>\<open>_run_olama\<close> (\<open>run_olama\<close>), the fresh identifier (\<open>uuid\<close>) and the
  default model. \<open>handle_post\<close> is the body of the \<^verbatim>\<open>try\<close> statement.
\<close>

record response =
  status :: nat
  body :: json

definition send_error :: "string \<Rightarrow> response" where
  "send_error message =
     \<lparr>status = 500,
      body = JObj [(''error'', JObj [(''message'', JStr message), (''type'', JStr ''olama_error'')])]\<rparr>"

definition handle_post ::
  "(json \<Rightarrow> string) \<Rightarrow> (json \<Rightarrow> json \<Rightarrow> error + string) \<Rightarrow> string \<Rightarrow> string \<Rightarrow> error + json
   \<Rightarrow> error + response" where
  "handle_post repr run_olama default_model uuid request =
     (case request of
        Inl e \<Rightarrow> Inl e
      | Inr payload \<Rightarrow>
          (case payload of
             JObj kvs \<Rightarrow>
               (let requested = dict_get kvs ''model'' JNull;
                    model = (if truthy requested then requested else JStr default_model)
                in case normalise_prompt repr (dict_get kvs ''messages'' JNull)
                          (dict_get kvs ''prompt'' JNull) of
                     Inl e \<Rightarrow> Inl e
                   | Inr (prompt, mode) \<Rightarrow>
                       (case run_olama prompt model of
                          Inl e \<Rightarrow> Inl e
                        | Inr completion \<Rightarrow>
                            (let response_id = ''local-codex-'' @ uuid
                             in Inr \<lparr>status = 200,
                                     body =
                                       (if mode = ''chat'' then
                                          JObj [(''id'', JStr response_id),
                                                (''object'', JStr ''chat.completion''),
                                                (''model'', model),
                                                (''choices'',
                                                 JList [JObj [(''index'', JNum 0),
                                                              (''finish_reason'', JStr ''stop''),
                                                              (''message'',
                                                               JObj [(''role'', JStr ''assistant''),
                                                                     (''content'', JStr completion)])]])]
                                        else
                                          JObj [(''id'', JStr response_id),
                                                (''object'', JStr ''text_completion''),
                                                (''model'', model),
                                                (''choices'',
                                                 JList [JObj [(''index'', JNum 0),
                                                              (''finish_reason'', JStr ''stop''),
                                                              (''text'', JStr completion)]])])\<rparr>)))
           | _ \<Rightarrow> Inl (no_attribute payload ''get'')))"

definition do_POST ::
  "(json \<Rightarrow> string) \<Rightarrow> (json \<Rightarrow> json \<Rightarrow> error + string) \<Rightarrow> string \<Rightarrow> string \<Rightarrow> error + json
   \<Rightarrow> response" where
  "do_POST repr run_olama default_model uuid request =
     (case handle_post repr run_olama default_model uuid request of
        Inr r \<Rightarrow> r
      | Inl e \<Rightarrow> send_error (str_exc e))"

section \<open>Concrete inputs\<close>

text \<open>
  A user-written entrypoint that mentions the name in its own code and carries no marker
  comment.
\<close>

definition user_code_entrypoint :: string where
  "user_code_entrypoint =
     ''import sys'' @ [LF] @ ''hook = ensure_local_model_server_enabled(sys.argv)'' @ [LF]"

definition user_code_world :: world where
  "user_code_world =
     \<lparr>fs = [[''opt'', ''codex'', ''codex'', ''cli.py''] \<mapsto> File user_code_entrypoint],
      stdout = []\<rparr>"

definition default_config :: config where
  "default_config =
     \<lparr>codex_root = None, model = ''llama3'', host = ''127.0.0.1'', port = 3925,
      dry_run = False, backup_suffix = ''.bak''\<rparr>"

text \<open>
  An installation under \<^verbatim>\<open>/opt/codex\<close> whose entrypoint \<^verbatim>\<open>cli.py\<close> consists of a module
  docstring, three import lines and a function definition.
\<close>

definition sample_entrypoint :: string where
  \<open>sample_entrypoint =
     join [LF]
       [''"""Codex command line."""'',
        ''import os'',
        ''import sys'',
        ''import json'',
        ''def main():'',
        ''    return 0''] @ [LF]\<close>

definition sample_package_dir :: path where
  "sample_package_dir = [''opt'', ''codex'', ''codex'']"

definition sample_path :: path where
  "sample_path = [''opt'', ''codex'', ''codex'', ''cli.py'']"

definition sample_fs :: filesystem where
  "sample_fs =
     [[''opt''] \<mapsto> Dir,
      [''opt'', ''codex''] \<mapsto> Dir,
      [''opt'', ''codex'', ''codex''] \<mapsto> Dir,
      [''opt'', ''codex'', ''codex'', ''__init__.py''] \<mapsto> File [],
      [''opt'', ''codex'', ''codex'', ''cli.py''] \<mapsto> File sample_entrypoint]"

definition sample_world :: world where
  "sample_world = \<lparr>fs = sample_fs, stdout = []\<rparr>"

text \<open>
  A host with the home directory \<^verbatim>\<open>/home/u\<close> and two installations, one at the default
  location \<^verbatim>\<open>/opt/codex\<close> and one at \<^verbatim>\<open>/srv/codex\<close>.
\<close>

definition home_u :: path where
  "home_u = [''home'', ''u'']"


text \<open>The same installation with a bridge module left by an earlier tool.\<close>

definition installed_world :: world where
  "installed_world =
     \<lparr>fs = sample_fs([''opt'', ''codex'', ''codex'', ''local_model_server.py'']
                     \<mapsto> File ''# earlier bridge''),
      stdout = []\<rparr>"

text \<open>
  The host of the sample installation: no \<^verbatim>\<open>CODEX_INSTALL_DIR\<close>, the directories listed
  in alphabetical order, and a JSON encoding for strings without special characters. The
  second configuration is the default one with the dry-run flag set.
\<close>

definition sample_host :: host_env where
  "sample_host =
     \<lparr>resolve_path = resolve_under home_u,
      install_dir = None,
      list_names = (\<lambda>f p. if p = [''opt''] then [''codex'']
                          else if p = [''opt'', ''codex''] then [''codex'']
                          else if p = [''opt'', ''codex'', ''codex'']
                            then [''__init__.py'', ''cli.py'']
                          else []),
      json_dumps = (\<lambda>s. [CHR 0x22] @ s @ [CHR 0x22])\<rparr>"

definition dry_config :: config where
  "dry_config = default_config\<lparr>dry_run := True\<rparr>"

section \<open>Facts about the text primitives\<close>

lemma contains_iff: "contains needle s \<longleftrightarrow> (\<exists>a b. s = a @ needle @ b)"
proof (induction s)
  case Nil
  then show ?case by auto
next
  case (Cons c cs)
  show ?case
  proof
    assume "contains needle (c # cs)"
    then consider "prefix needle (c # cs)" | "contains needle cs" by auto
    then show "\<exists>a b. c # cs = a @ needle @ b"
    proof cases
      case 1
      then obtain b where "c # cs = needle @ b" by (auto simp: prefix_def)
      then have "c # cs = [] @ needle @ b" by simp
      then show ?thesis by blast
    next
      case 2
      with Cons.IH obtain a b where "cs = a @ needle @ b" by blast
      then have "c # cs = (c # a) @ needle @ b" by simp
      then show ?thesis by blast
    qed
  next
    assume "\<exists>a b. c # cs = a @ needle @ b"
    then obtain a b where ab: "c # cs = a @ needle @ b" by blast
    show "contains needle (c # cs)"
    proof (cases a)
      case Nil
      with ab have "prefix needle (c # cs)" by (simp add: prefix_def)
      then show ?thesis by simp
    next
      case (Cons x xs)
      with ab have "cs = xs @ needle @ b" by simp
      with Cons.IH have "contains needle cs" by blast
      then show ?thesis by simp
    qed
  qed
qed

lemma contains_trans:
  assumes "contains x y" and "contains y z"
  shows "contains x z"
proof -
  from assms obtain a b c d where "y = a @ x @ b" and "z = c @ y @ d"
    by (auto simp: contains_iff)
  then have "z = (c @ a) @ x @ (b @ d)" by simp
  then show ?thesis unfolding contains_iff by blast
qed

lemma join_member:
  "x \<in> set xs \<Longrightarrow> \<exists>a b. join sep xs = a @ x @ b"
proof (induction sep xs rule: join.induct)
  case (1 sep)
  then show ?case by simp
next
  case (2 sep y)
  then have "join sep [y] = [] @ x @ []" by simp
  then show ?case by blast
next
  case (3 sep y z zs)
  show ?case
  proof (cases "x = y")
    case True
    then have "join sep (y # z # zs) = [] @ x @ (sep @ join sep (z # zs))" by simp
    then show ?thesis by blast
  next
    case False
    with 3 obtain a b where "join sep (z # zs) = a @ x @ b" by auto
    then have "join sep (y # z # zs) = (y @ sep @ a) @ x @ b" by simp
    then show ?thesis by blast
  qed
qed

lemma contains_join: "x \<in> set xs \<Longrightarrow> contains x (join sep xs)"
  unfolding contains_iff by (rule join_member)

lemma universal_newlines_plain:
  "\<forall>c\<in>set n. c \<noteq> CR \<Longrightarrow> universal_newlines (n @ b) = n @ universal_newlines b"
  by (induction n) simp_all

lemma universal_newlines_append:
  "b = [] \<or> hd b \<noteq> LF \<Longrightarrow>
   universal_newlines (a @ b) = universal_newlines a @ universal_newlines b"
proof (induction a rule: universal_newlines.induct)
  case 1
  then show ?case by simp
next
  case (2 c cs)
  show ?case
  proof (cases "c = CR")
    case False
    with 2 show ?thesis by simp
  next
    case True
    show ?thesis
    proof (cases cs)
      case Nil
      with True 2(4) show ?thesis by (cases b) simp_all
    next
      case (Cons d ds)
      show ?thesis
      proof (cases "d = LF")
        case dl: True
        with True Cons 2(1)[OF True Cons dl] 2(4) show ?thesis by simp
      next
        case dl: False
        with True Cons 2(2)[OF True Cons dl] 2(4) show ?thesis by simp
      qed
    qed
  qed
qed

lemma contains_universal_newlines:
  assumes "contains needle s"
    and "\<forall>c\<in>set needle. c \<noteq> CR" and "\<forall>c\<in>set needle. c \<noteq> LF" and "needle \<noteq> []"
  shows "contains needle (universal_newlines s)"
proof -
  from assms(1) obtain a b where s: "s = a @ needle @ b" by (auto simp: contains_iff)
  have "hd (needle @ b) \<noteq> LF" using assms(3,4) by (cases needle) auto
  then have "universal_newlines s = universal_newlines a @ universal_newlines (needle @ b)"
    unfolding s by (intro universal_newlines_append) simp
  also have "\<dots> = universal_newlines a @ needle @ universal_newlines b"
    using assms(2) by (simp add: universal_newlines_plain)
  finally show ?thesis unfolding contains_iff by blast
qed

lemma bootstrap_name_plain:
  "\<forall>c\<in>set bootstrap_name. c \<noteq> CR" "\<forall>c\<in>set bootstrap_name. c \<noteq> LF" "bootstrap_name \<noteq> []"
  by (simp_all add: bootstrap_name_def CR_def LF_def)

lemma contains_bootstrap_read:
  "contains bootstrap_name s \<Longrightarrow> contains bootstrap_name (universal_newlines s)"
  by (rule contains_universal_newlines) (simp_all add: bootstrap_name_plain)

lemma injection_contains_bootstrap: "contains bootstrap_name (injection package_name)"
proof -
  have "contains ''ensure_local_model_server()'' (injection package_name)"
    unfolding injection_def by (rule contains_join) simp
  moreover have "contains bootstrap_name ''ensure_local_model_server()''"
  proof -
    have "''ensure_local_model_server()'' = [] @ bootstrap_name @ ''()''"
      by (simp add: bootstrap_name_def)
    then show ?thesis unfolding contains_iff by blast
  qed
  ultimately show ?thesis by (rule contains_trans[rotated])
qed

lemma patched_text_contains_bootstrap: "contains bootstrap_name (patched_text package_name text)"
proof -
  have "contains (injection package_name) (patched_text package_name text)"
    unfolding patched_text_def Let_def by (rule contains_join) simp
  with injection_contains_bootstrap show ?thesis by (rule contains_trans)
qed

section \<open>Facts about the backup step\<close>

lemma lookup_file_nonroot: "lookup f p = Some (File c) \<Longrightarrow> p \<noteq> [] \<and> f p = Some (File c)"
  by (auto simp: lookup_def split: if_splits)

lemma lookup_upd_same: "p \<noteq> [] \<Longrightarrow> lookup (f(p \<mapsto> n)) p = Some n"
  by (simp add: lookup_def)

lemma lookup_upd_other: "q \<noteq> p \<Longrightarrow> lookup (f(p \<mapsto> n)) q = lookup f q"
  by (simp add: lookup_def)

lemma backup_once_cases:
  assumes "backup_once cfg target f = Inr f1" and "lookup f target = Some (File c)"
  obtains b where "backup_path_of cfg target = Inr b" and "path_exists f b" and "f1 = f"
  | b where "backup_path_of cfg target = Inr b" and "\<not> path_exists f b" and "b \<noteq> target"
      and "b \<noteq> []" and "f1 = f(b \<mapsto> File c)"
proof -
  from assms(1) obtain b where b: "backup_path_of cfg target = Inr b"
    by (auto simp: backup_once_def split: sum.splits)
  show ?thesis
  proof (cases "path_exists f b")
    case True
    with assms(1) b have "f1 = f" by (simp add: backup_once_def)
    with b True that(1) show ?thesis by blast
  next
    case False
    then have nb: "lookup f b = None" by (simp add: path_exists_def)
    with assms(2) have ne: "b \<noteq> target" by auto
    from nb have nr: "b \<noteq> []" by (auto simp: lookup_def split: if_splits)
    from assms b False nb have "f1 = f(b \<mapsto> File c)"
      by (simp add: backup_once_def copy2_def)
    with b False ne nr that(2) show ?thesis by blast
  qed
qed

lemma backup_once_keeps_target:
  assumes "backup_once cfg target f = Inr f1" and "lookup f target = Some (File c)"
  shows "lookup f1 target = Some (File c)"
  using assms by (elim backup_once_cases) (auto simp: lookup_def)

lemma read_text_file:
  "read_text f p = Inr text \<Longrightarrow> \<exists>c. lookup f p = Some (File c) \<and> text = universal_newlines c"
  by (auto simp: read_text_def split: option.splits node.splits)

section \<open>Facts about \<open>inject_bootstrap\<close>\<close>

lemma inject_bootstrap_marked:
  assumes "lookup (fs w) entrypoint = Some (File content)"
    and "contains bootstrap_name content"
  shows "inject_bootstrap cfg entrypoint package_name w = (Inr (), w)"
proof -
  have "read_text (fs w) entrypoint = Inr (universal_newlines content)"
    using assms(1) by (simp add: read_text_def)
  moreover have "contains bootstrap_name (universal_newlines content)"
    using assms(2) by (rule contains_bootstrap_read)
  ultimately show ?thesis by (simp add: inject_bootstrap_def)
qed

lemma inject_bootstrap_read_error:
  "read_text (fs w) entrypoint = Inl e \<Longrightarrow>
   inject_bootstrap cfg entrypoint package_name w = (Inl e, w)"
  by (simp add: inject_bootstrap_def)

lemma inject_bootstrap_dry_run:
  assumes "read_text (fs w) entrypoint = Inr text"
    and "\<not> contains bootstrap_name text" and "dry_run cfg"
  shows "inject_bootstrap cfg entrypoint package_name w =
           (Inr (), print (''[dry-run] Would update '' @ path_str entrypoint) w)"
  using assms by (simp add: inject_bootstrap_def Let_def)

lemma inject_bootstrap_backup_error:
  assumes "read_text (fs w) entrypoint = Inr text"
    and "\<not> contains bootstrap_name text" and "\<not> dry_run cfg"
    and "backup_once cfg entrypoint (fs w) = Inl e"
  shows "inject_bootstrap cfg entrypoint package_name w = (Inl e, w)"
  using assms by (simp add: inject_bootstrap_def Let_def)

lemma inject_bootstrap_writes:
  assumes "lookup (fs w) entrypoint = Some (File content)"
    and "\<not> contains bootstrap_name (universal_newlines content)" and "\<not> dry_run cfg"
    and "backup_once cfg entrypoint (fs w) = Inr f1"
  shows "inject_bootstrap cfg entrypoint package_name w =
           (Inr (), w\<lparr>fs := f1(entrypoint \<mapsto>
                        File (patched_text package_name (universal_newlines content)))\<rparr>)"
proof -
  have r: "read_text (fs w) entrypoint = Inr (universal_newlines content)"
    using assms(1) by (simp add: read_text_def)
  have "lookup f1 entrypoint = Some (File content)"
    using assms(4,1) by (rule backup_once_keeps_target)
  then have "write_text f1 entrypoint (patched_text package_name (universal_newlines content))
               = Inr (f1(entrypoint \<mapsto>
                        File (patched_text package_name (universal_newlines content))))"
    by (simp add: write_text_def)
  with r assms(2,3,4) show ?thesis by (simp add: inject_bootstrap_def Let_def)
qed

lemma backup_once_succeeds:
  assumes "lookup f target = Some (File c)" and "backup_path_of cfg target = Inr b"
  shows "backup_once cfg target f = Inr (if path_exists f b then f else f(b \<mapsto> File c))"
proof (cases "path_exists f b")
  case True
  with assms show ?thesis by (simp add: backup_once_def)
next
  case False
  then have "lookup f b = None" by (simp add: path_exists_def)
  with assms False show ?thesis by (simp add: backup_once_def copy2_def)
qed

lemma print_fs: "fs (print line w) = fs w"
  by (simp add: print_def)

lemma inject_bootstrap_second_run:
  "fs (snd (inject_bootstrap cfg e pkg (snd (inject_bootstrap cfg e pkg w))))
     = fs (snd (inject_bootstrap cfg e pkg w))"
proof (cases "read_text (fs w) e")
  case (Inl err)
  then show ?thesis by (simp add: inject_bootstrap_read_error)
next
  case (Inr t)
  then obtain c where c: "lookup (fs w) e = Some (File c)" and t: "t = universal_newlines c"
    by (auto dest: read_text_file)
  show ?thesis
  proof (cases "contains bootstrap_name t")
    case True
    with Inr have "inject_bootstrap cfg e pkg w = (Inr (), w)"
      by (simp add: inject_bootstrap_def)
    then show ?thesis by simp
  next
    case unmarked: False
    show ?thesis
    proof (cases "dry_run cfg")
      case True
      let ?w1 = "print (''[dry-run] Would update '' @ path_str e) w"
      have 1: "inject_bootstrap cfg e pkg w = (Inr (), ?w1)"
        using Inr unmarked True by (rule inject_bootstrap_dry_run)
      have "read_text (fs ?w1) e = Inr t" using Inr by (simp add: print_fs)
      then have "inject_bootstrap cfg e pkg ?w1
                   = (Inr (), print (''[dry-run] Would update '' @ path_str e) ?w1)"
        using unmarked True by (rule inject_bootstrap_dry_run)
      with 1 show ?thesis by (simp add: print_fs)
    next
      case wet: False
      show ?thesis
      proof (cases "backup_once cfg e (fs w)")
        case (Inl err)
        with Inr unmarked wet have "inject_bootstrap cfg e pkg w = (Inl err, w)"
          by (simp add: inject_bootstrap_backup_error)
        then show ?thesis by simp
      next
        case f1: (Inr f1)
        let ?new = "patched_text pkg (universal_newlines c)"
        let ?w1 = "w\<lparr>fs := f1(e \<mapsto> File ?new)\<rparr>"
        have 1: "inject_bootstrap cfg e pkg w = (Inr (), ?w1)"
          using c unmarked wet f1 unfolding t by (rule inject_bootstrap_writes)
        have "e \<noteq> []" using c by (auto dest: lookup_file_nonroot)
        then have "lookup (fs ?w1) e = Some (File ?new)" by (simp add: lookup_def)
        then have "inject_bootstrap cfg e pkg ?w1 = (Inr (), ?w1)"
          using patched_text_contains_bootstrap by (rule inject_bootstrap_marked)
        with 1 show ?thesis by simp
      qed
    qed
  qed
qed

section \<open>Facts about writing next to an existing file\<close>

lemma os_mkdir_keeps:
  "os_mkdir f p = Inr f' \<Longrightarrow> lookup f q \<noteq> None \<Longrightarrow> lookup f' q = lookup f q"
  by (auto simp: os_mkdir_def lookup_def split: if_splits option.splits node.splits)

lemma mkdir_parents_keeps:
  "mkdir_parents f p = Inr f' \<Longrightarrow> lookup f q \<noteq> None \<Longrightarrow> lookup f' q = lookup f q"
proof (induction f p arbitrary: f' rule: mkdir_parents.induct)
  case (1 f p)
  show ?case
  proof (cases "os_mkdir f p")
    case (Inr g)
    with "1.prems" have "f' = g" by (subst (asm) mkdir_parents.simps) simp
    with Inr "1.prems"(2) show ?thesis by (simp add: os_mkdir_keeps)
  next
    case (Inl e)
    show ?thesis
    proof (cases "\<exists>m. e = FileNotFoundError m")
      case False
      with Inl "1.prems"(1) have "f' = f"
        by (subst (asm) mkdir_parents.simps) (cases e; simp split: if_splits)
      then show ?thesis by simp
    next
      case True
      then obtain m where m: "e = FileNotFoundError m" by blast
      with Inl "1.prems"(1) have ne: "p \<noteq> []"
        by (subst (asm) mkdir_parents.simps) (simp split: if_splits)
      from Inl m ne "1.prems"(1) obtain g where g: "mkdir_parents f (parent p) = Inr g"
        and rest: "(case os_mkdir g p of Inr f'' \<Rightarrow> Inr f''
                    | Inl e \<Rightarrow> if is_dir g p then Inr g else Inl e) = Inr f'"
        by (subst (asm) mkdir_parents.simps) (simp split: sum.splits)
      have kg: "lookup g q = lookup f q"
        using "1.IH"[OF Inl m ne g "1.prems"(2)] .
      show ?thesis
      proof (cases "os_mkdir g p")
        case (Inr h)
        with rest have "f' = h" by simp
        with Inr kg "1.prems"(2) show ?thesis by (simp add: os_mkdir_keeps)
      next
        case (Inl e2)
        with rest have "f' = g" by (simp split: if_splits)
        with kg show ?thesis by simp
      qed
    qed
  qed
qed

lemma write_text_keeps:
  "write_text f p content = Inr f' \<Longrightarrow> q \<noteq> p \<Longrightarrow> lookup f' q = lookup f q"
  by (auto simp: write_text_def lookup_def split: option.splits node.splits)

lemma write_file_keeps:
  assumes "lookup (fs w) q \<noteq> None" and "q \<noteq> p"
  shows "lookup (fs (snd (write_file cfg p content w))) q = lookup (fs w) q"
proof (cases "dry_run cfg")
  case True
  then show ?thesis by (simp add: write_file_def print_fs)
next
  case False
  show ?thesis
  proof (cases "mkdir_parents (fs w) (parent p)")
    case (Inl e)
    with False show ?thesis by (simp add: write_file_def)
  next
    case (Inr f1)
    then have k: "lookup f1 q = lookup (fs w) q"
      using assms(1) by (rule mkdir_parents_keeps)
    show ?thesis
    proof (cases "write_text f1 p content")
      case (Inl e)
      with False Inr k show ?thesis by (simp add: write_file_def)
    next
      case f2: (Inr f2)
      then have "lookup f2 q = lookup f1 q" using assms(2) by (rule write_text_keeps)
      with False Inr f2 k show ?thesis by (simp add: write_file_def)
    qed
  qed
qed

lemma backup_once_existing:
  "backup_path_of cfg target = Inr b \<Longrightarrow> path_exists f b \<Longrightarrow> backup_once cfg target f = Inr f"
  by (simp add: backup_once_def)

text \<open>The second phase of \<open>install_server_module\<close>: rendering and writing.\<close>

lemma install_server_module_keeps:
  assumes "backup_path_of cfg (server_path_of d) = Inr b"
    and "path_exists (fs w) b" and "b \<noteq> server_path_of d"
  shows "lookup (fs (snd (install_server_module cfg d w))) b = lookup (fs w) b"
proof -
  have 1: "(if path_exists (fs w) (server_path_of d) \<and> \<not> dry_run cfg
            then backup_once cfg (server_path_of d) (fs w) else Inr (fs w)) = Inr (fs w)"
    using assms(1,2) by (simp add: backup_once_existing)
  have 2: "lookup (fs w) b \<noteq> None" using assms(2) by (simp add: path_exists_def)
  show ?thesis
  proof (cases "render_server_module (host cfg) (port cfg) (model cfg)")
    case (Inl e)
    with 1 show ?thesis by (simp add: install_server_module_def)
  next
    case (Inr module_text)
    have "lookup (fs (snd (write_file cfg (server_path_of d) module_text w))) b = lookup (fs w) b"
      using 2 assms(3) by (rule write_file_keeps)
    with 1 Inr show ?thesis
      by (auto simp: install_server_module_def Let_def split: prod.splits sum.splits)
  qed
qed

lemma inject_bootstrap_keeps:
  assumes "backup_path_of cfg e = Inr b" and "path_exists (fs w) b" and "b \<noteq> e"
  shows "lookup (fs (snd (inject_bootstrap cfg e pkg w))) b = lookup (fs w) b"
proof (cases "read_text (fs w) e")
  case (Inl err)
  then show ?thesis by (simp add: inject_bootstrap_read_error)
next
  case (Inr t)
  then obtain c where c: "lookup (fs w) e = Some (File c)" and t: "t = universal_newlines c"
    by (auto dest: read_text_file)
  show ?thesis
  proof (cases "contains bootstrap_name t")
    case True
    with Inr show ?thesis by (simp add: inject_bootstrap_def)
  next
    case unmarked: False
    show ?thesis
    proof (cases "dry_run cfg")
      case True
      with Inr unmarked show ?thesis by (simp add: inject_bootstrap_dry_run print_fs)
    next
      case False
      have "backup_once cfg e (fs w) = Inr (fs w)"
        using assms(1,2) by (rule backup_once_existing)
      with c unmarked False have "inject_bootstrap cfg e pkg w =
           (Inr (), w\<lparr>fs := (fs w)(e \<mapsto> File (patched_text pkg (universal_newlines c)))\<rparr>)"
        unfolding t by (intro inject_bootstrap_writes) simp_all
      with assms(3) show ?thesis by (simp add: lookup_def)
    qed
  qed
qed

lemma funpow_keeps:
  fixes F :: "world \<Rightarrow> world"
  assumes step: "\<And>w. lookup (fs w) b = Some x \<Longrightarrow> lookup (fs (F w)) b = Some x"
    and first: "lookup (fs (F w)) b = Some x" and "0 < n"
  shows "lookup (fs ((F ^^ n) w)) b = Some x"
proof -
  have "lookup (fs ((F ^^ Suc k) w)) b = Some x" for k
  proof (induction k)
    case 0
    show ?case using first by simp
  next
    case (Suc k)
    then show ?case using step by simp
  qed
  with \<open>0 < n\<close> show ?thesis by (cases n) auto
qed

lemma backup_path_of_name:
  assumes "backup_path_of cfg target = Inr b"
  shows "b = parent target @ [name_of target @ backup_suffix cfg]"
proof -
  let ?name = "name_of target"
  have "take (length ?name - length (suffix_of target)) ?name @ suffix_of target = ?name"
  proof (cases "suffix_of target = []")
    case True
    then show ?thesis by simp
  next
    case False
    then obtain i where i: "suffix_of target = drop i ?name" and "i \<le> length ?name"
      by (auto simp: suffix_of_def Let_def split: if_splits)
    then show ?thesis by simp
  qed
  with assms show ?thesis
    by (auto simp: backup_path_of_def with_suffix_def Let_def split: if_splits)
qed

lemma backup_path_of_same:
  assumes "backup_path_of cfg target = Inr b"
  shows "b = target \<longleftrightarrow> backup_suffix cfg = []"
proof -
  from assms have ne: "name_of target \<noteq> []"
    by (auto simp: backup_path_of_def with_suffix_def split: if_splits)
  then have t: "target = parent target @ [name_of target]"
    by (auto simp: name_of_def parent_def split: if_splits)
  from backup_path_of_name[OF assms] have b: "b = parent target @ [name_of target @ backup_suffix cfg]" .
  show ?thesis
  proof
    assume "b = target"
    with b t have "parent target @ [name_of target @ backup_suffix cfg] = parent target @ [name_of target]"
      by simp
    then show "backup_suffix cfg = []" by simp
  next
    assume "backup_suffix cfg = []"
    with b t show "b = target" by simp
  qed
qed

section \<open>Facts about \<open>py_format\<close>\<close>

lemma parse_field_append:
  "parse_field inb acc a = Inr (n, t, r) \<Longrightarrow> parse_field inb acc (a @ b) = Inr (n, t, r @ b)"
  by (induction inb acc a rule: parse_field.induct) (auto split: if_splits)

lemma parse_field_error:
  "parse_field inb acc a = Inl e \<Longrightarrow> \<exists>m. e = ValueError m"
  by (induction inb acc a rule: parse_field.induct) (auto split: if_splits)

lemma parse_field_suffix:
  "parse_field inb acc a = Inr (n, t, r) \<Longrightarrow> \<exists>pre. a = pre @ r"
proof (induction inb acc a rule: parse_field.induct)
  case (1 inb acc)
  then show ?case by simp
next
  case (2 inb acc c cs)
  show ?case
  proof (cases "r = cs")
    case True
    then have "c # cs = [c] @ r" by simp
    then show ?thesis by blast
  next
    case False
    with 2 obtain pre where "cs = pre @ r" by (auto split: if_splits)
    then have "c # cs = (c # pre) @ r" by simp
    then show ?thesis by blast
  qed
qed

text \<open>An error does not depend on the text produced so far.\<close>

lemma py_format_from_out:
  "py_format_from kw out s =
     (case py_format_from kw [] s of Inl e \<Rightarrow> Inl e | Inr r \<Rightarrow> Inr (rev out @ r))"
proof (induction "length s" arbitrary: s out rule: less_induct)
  case less
  show ?case
  proof (cases s)
    case Nil
    then show ?thesis by simp
  next
    case (Cons c cs)
    have ih: "\<And>t o1 o2. length t < length s \<Longrightarrow>
        py_format_from kw (o1 @ o2) t =
          (case py_format_from kw o1 t of Inl e \<Rightarrow> Inl e | Inr r \<Rightarrow> Inr (rev o2 @ r))"
    proof -
      fix t :: string and o1 o2 :: string
      assume l: "length t < length s"
      from less[OF l, of "o1 @ o2"] less[OF l, of o1] show
        "py_format_from kw (o1 @ o2) t =
          (case py_format_from kw o1 t of Inl e \<Rightarrow> Inl e | Inr r \<Rightarrow> Inr (rev o2 @ r))"
        by (simp split: sum.splits)
    qed
    show ?thesis
    proof (cases "c = CHR ''}''")
      case True
      show ?thesis
      proof (cases cs)
        case Nil
        with Cons True show ?thesis by simp
      next
        case (Cons d ds)
        with ih[of ds "[CHR ''}'']" out] \<open>s = c # cs\<close> True show ?thesis by simp
      qed
    next
      case nclose: False
      show ?thesis
      proof (cases "c = CHR ''{''")
        case False
        with ih[of cs "[c]" out] Cons nclose show ?thesis by simp
      next
        case True
        show ?thesis
        proof (cases cs)
          case Nil
          with Cons True show ?thesis by simp
        next
          case ds: (Cons d ds)
          show ?thesis
          proof (cases "d = CHR ''{''")
            case True
            with ih[of ds "[CHR ''{'']" out] Cons ds \<open>c = CHR ''{''\<close> show ?thesis by simp
          next
            case False
            show ?thesis
            proof (cases "parse_field False [] (d # ds)")
              case (Inl e)
              with Cons ds \<open>c = CHR ''{''\<close> False show ?thesis by simp
            next
              case (Inr res)
              then obtain n t r where res: "parse_field False [] (d # ds) = Inr (n, t, r)"
                by (cases res) auto
              then have "length r < length s"
                using parse_field_shorter[OF res] Cons ds by simp
              from ih[OF this, of "rev x" out for x] res Cons ds \<open>c = CHR ''{''\<close> False
              show ?thesis by (simp split: sum.splits)
            qed
          qed
        qed
      qed
    qed
  qed
qed

lemma py_format_from_error:
  "py_format_from kw [] s = Inl e \<Longrightarrow> py_format_from kw out s = Inl e"
  by (subst py_format_from_out) simp

text \<open>A \<open>KeyError\<close> is raised by a prefix of the format string alone.\<close>

lemma py_format_from_key_error_prefix:
  "py_format_from kw out a = Inl (KeyError k) \<Longrightarrow> py_format_from kw out (a @ b) = Inl (KeyError k)"
proof (induction kw out a rule: py_format_from.induct)
  case (1 kw out)
  then show ?case by simp
next
  case (2 kw out c cs)
  show ?case
  proof (cases "c = CHR ''}''")
    case True
    with "2.prems" obtain ds where cs: "cs = CHR ''}'' # ds"
      by (cases cs) (auto split: if_splits)
    with True "2.prems" "2.IH"(1)[OF True cs] show ?thesis by simp
  next
    case nclose: False
    show ?thesis
    proof (cases "c = CHR ''{''")
      case False
      with nclose "2.prems" "2.IH"(4)[OF nclose False] show ?thesis by simp
    next
      case True
      with "2.prems" obtain d ds where cs: "cs = d # ds"
        by (cases cs) auto
      show ?thesis
      proof (cases "d = CHR ''{''")
        case dd: True
        with True nclose cs "2.prems" "2.IH"(2)[OF nclose True cs dd] show ?thesis by simp
      next
        case dd: False
        show ?thesis
        proof (cases "parse_field False [] (d # ds)")
          case (Inl e)
          with parse_field_error[OF Inl] True cs dd "2.prems" show ?thesis by auto
        next
          case (Inr res)
          then obtain n t r where res: "parse_field False [] (d # ds) = Inr (n, t, r)"
            by (cases res) auto
          then have resb: "parse_field False [] ((d # ds) @ b) = Inr (n, t, r @ b)"
            by (rule parse_field_append)
          show ?thesis
          proof (cases "render_field kw n t")
            case (Inl e)
            with True cs dd res resb "2.prems" show ?thesis by simp
          next
            case s: (Inr s)
            have "py_format_from kw (rev s @ out) r = Inl (KeyError k)"
              using True cs dd res s "2.prems" by simp
            from "2.IH"(3)[OF nclose True cs dd res refl refl s this]
            show ?thesis using True cs dd resb s by simp
          qed
        qed
      qed
    qed
  qed
qed

text \<open>
  A prefix of the format string that is formatted without error and does not end in a
  brace is formatted on its own.
\<close>

lemma py_format_from_prefix:
  "py_format_from kw out a = Inr r \<Longrightarrow> a = [] \<or> (last a \<noteq> CHR ''{'' \<and> last a \<noteq> CHR ''}'') \<Longrightarrow>
   py_format_from kw out (a @ b) = py_format_from kw (rev r) b"
proof (induction kw out a rule: py_format_from.induct)
  case (1 kw out)
  then show ?case by auto
next
  case (2 kw out c cs)
  from "2.prems"(2) have lst: "cs = [] \<or> (last cs \<noteq> CHR ''{'' \<and> last cs \<noteq> CHR ''}'')"
    by (auto split: if_splits)
  show ?case
  proof (cases "c = CHR ''}''")
    case True
    with "2.prems" obtain ds where cs: "cs = CHR ''}'' # ds"
      by (cases cs) (auto split: if_splits)
    from lst cs have "ds = [] \<or> (last ds \<noteq> CHR ''{'' \<and> last ds \<noteq> CHR ''}'')"
      by (auto split: if_splits)
    with True cs "2.prems"(1) "2.IH"(1)[OF True cs] show ?thesis by simp
  next
    case nclose: False
    show ?thesis
    proof (cases "c = CHR ''{''")
      case False
      with nclose "2.prems"(1) lst "2.IH"(4)[OF nclose False] show ?thesis by simp
    next
      case True
      with "2.prems" obtain d ds where cs: "cs = d # ds"
        by (cases cs) auto
      show ?thesis
      proof (cases "d = CHR ''{''")
        case dd: True
        from lst cs dd have "ds = [] \<or> (last ds \<noteq> CHR ''{'' \<and> last ds \<noteq> CHR ''}'')"
          by (auto split: if_splits)
        with True nclose cs dd "2.prems"(1) "2.IH"(2)[OF nclose True cs dd] show ?thesis by simp
      next
        case dd: False
        show ?thesis
        proof (cases "parse_field False [] (d # ds)")
          case (Inl e)
          with True cs dd "2.prems"(1) show ?thesis by simp
        next
          case (Inr res)
          then obtain n t rest where res: "parse_field False [] (d # ds) = Inr (n, t, rest)"
            by (cases res) auto
          then have resb: "parse_field False [] ((d # ds) @ b) = Inr (n, t, rest @ b)"
            by (rule parse_field_append)
          from parse_field_suffix[OF res] obtain pre where pre: "d # ds = pre @ rest" by blast
          have lr: "rest = [] \<or> (last rest \<noteq> CHR ''{'' \<and> last rest \<noteq> CHR ''}'')"
          proof (cases "rest = []")
            case True
            then show ?thesis by simp
          next
            case False
            with pre have "last rest = last (d # ds)" by simp
            with lst cs show ?thesis by simp
          qed
          show ?thesis
          proof (cases "render_field kw n t")
            case (Inl e)
            with True cs dd res "2.prems"(1) show ?thesis by simp
          next
            case s: (Inr s)
            have "py_format_from kw (rev s @ out) rest = Inr r"
              using True cs dd res s "2.prems"(1) by simp
            from "2.IH"(3)[OF nclose True cs dd res refl refl s this lr]
            show ?thesis using True cs dd resb s by simp
          qed
        qed
      qed
    qed
  qed
qed

lemma py_format_from_literal:
  "brace_free l \<Longrightarrow> py_format_from kw out l = Inr (rev out @ l)"
  by (induction l arbitrary: out) (simp_all add: brace_free_def)

section \<open>Rendering the server template\<close>

lemma unlines_Cons: "unlines (l # ls) = (l @ [LF]) @ unlines ls"
  by (simp add: unlines_def)

lemma line_ends_plain: "l @ [LF] = [] \<or> (last (l @ [LF]) \<noteq> CHR ''{'' \<and> last (l @ [LF]) \<noteq> CHR ''}'')"
  by (simp add: LF_def)

lemma lines_then_key_error:
  assumes "\<forall>l \<in> set ls. \<exists>r. py_format_from kw [] (l @ [LF]) = Inr r"
    and "py_format_from kw [] (bad @ [LF]) = Inl (KeyError k)"
  shows "py_format_from kw out (unlines (ls @ bad # rest)) = Inl (KeyError k)"
  using assms(1)
proof (induction ls arbitrary: out)
  case Nil
  have "py_format_from kw out (bad @ [LF]) = Inl (KeyError k)"
    using assms(2) by (rule py_format_from_error)
  then have "py_format_from kw out ((bad @ [LF]) @ unlines rest) = Inl (KeyError k)"
    by (rule py_format_from_key_error_prefix)
  then show ?case by (simp add: unlines_Cons)
next
  case (Cons l ls)
  then obtain r where r: "py_format_from kw [] (l @ [LF]) = Inr r" by auto
  then have "py_format_from kw out (l @ [LF]) = Inr (rev out @ r)"
    by (subst py_format_from_out) simp
  then have "py_format_from kw out ((l @ [LF]) @ unlines (ls @ bad # rest))
               = py_format_from kw (rev (rev out @ r)) (unlines (ls @ bad # rest))"
    using line_ends_plain by (rule py_format_from_prefix)
  also have "\<dots> = Inl (KeyError k)" using Cons by simp
  finally show ?case by (simp add: unlines_Cons)
qed

lemma brace_free_line_ok:
  "brace_free l \<Longrightarrow> \<exists>r. py_format_from kw [] (l @ [LF]) = Inr r"
proof -
  assume "brace_free l"
  then have "brace_free (l @ [LF])" by (simp add: brace_free_def LF_def)
  then have "py_format_from kw [] (l @ [LF]) = Inr (rev [] @ (l @ [LF]))"
    by (rule py_format_from_literal)
  then show ?thesis by blast
qed

lemma template_header_lines:
  \<open>\<forall>l \<in> set template_header.
     brace_free l
     \<or> l = ''HOST = os.environ.get("CODEX_LOCAL_SERVER_HOST", "{host}")''
     \<or> l = ''PORT = int(os.environ.get("CODEX_LOCAL_SERVER_PORT", "{port}"))''
     \<or> l = ''DEFAULT_MODEL = os.environ.get("CODEX_LOCAL_MODEL", "{model}")''
     \<or> l = ''_API_BASE = f"http://{host}:{port}/v1"''\<close>
  by (simp add: template_header_def brace_free_def)

lemma template_field_lines:
  fixes h m :: string and p :: int
  defines "kw \<equiv> [(''host'', PStr h), (''port'', PInt p), (''model'', PStr m)]"
  shows \<open>\<exists>r. py_format_from kw []
           (''HOST = os.environ.get("CODEX_LOCAL_SERVER_HOST", "{host}")'' @ [LF]) = Inr r\<close>
    and \<open>\<exists>r. py_format_from kw []
           (''PORT = int(os.environ.get("CODEX_LOCAL_SERVER_PORT", "{port}"))'' @ [LF]) = Inr r\<close>
    and \<open>\<exists>r. py_format_from kw []
           (''DEFAULT_MODEL = os.environ.get("CODEX_LOCAL_MODEL", "{model}")'' @ [LF]) = Inr r\<close>
    and \<open>\<exists>r. py_format_from kw []
           (''_API_BASE = f"http://{host}:{port}/v1"'' @ [LF]) = Inr r\<close>
  by (simp_all add: kw_def render_field_def get_field_object_def is_digit_def LF_def)

lemma template_role_line:
  \<open>py_format_from [(''host'', PStr h), (''port'', PInt p), (''model'', PStr m)] []
     (''        rendered.append(f"[{role.upper()}] {content}")'' @ [LF]) = Inl (KeyError ''role'')\<close>
  by (simp add: render_field_def get_field_object_def is_digit_def LF_def)

lemma template_normalise_prompt_split:
  \<open>template_normalise_prompt =
     take 10 template_normalise_prompt
     @ ''        rendered.append(f"[{role.upper()}] {content}")''
     # drop 11 template_normalise_prompt\<close>
  by (simp add: template_normalise_prompt_def)

lemma template_normalise_prompt_start:
  "\<forall>l \<in> set (take 10 template_normalise_prompt). brace_free l"
  by (simp add: template_normalise_prompt_def brace_free_def)

lemma render_server_module_key_error:
  "render_server_module h p m = Inl (KeyError ''role'')"
proof -
  let ?kw = "[(''host'', PStr h), (''port'', PInt p), (''model'', PStr m)]"
  let ?ls = "template_header @ take 10 template_normalise_prompt"
  let ?rest = "drop 11 template_normalise_prompt @ template_run_olama
     @ template_request_handler @ template_start_server @ template_bootstrap_hook"
  have ok: "\<forall>l \<in> set ?ls. \<exists>r. py_format_from ?kw [] (l @ [LF]) = Inr r"
  proof
    fix l assume "l \<in> set ?ls"
    then consider "l \<in> set template_header" | "l \<in> set (take 10 template_normalise_prompt)"
      by auto
    then show "\<exists>r. py_format_from ?kw [] (l @ [LF]) = Inr r"
    proof cases
      case 1
      with template_header_lines template_field_lines[of h p m] brace_free_line_ok[of l ?kw]
      show ?thesis by blast
    next
      case 2
      with template_normalise_prompt_start brace_free_line_ok[of l ?kw] show ?thesis by blast
    qed
  qed
  have eq: \<open>SERVER_MODULE_TEMPLATE_lines =
          ?ls @ ''        rendered.append(f"[{role.upper()}] {content}")'' # ?rest\<close>
    unfolding SERVER_MODULE_TEMPLATE_lines_def
    by (subst template_normalise_prompt_split) simp
  have "py_format_from ?kw [] (unlines SERVER_MODULE_TEMPLATE_lines) = Inl (KeyError ''role'')"
    by (subst eq) (rule lines_then_key_error[OF ok template_role_line])
  then show ?thesis
    by (simp add: render_server_module_def py_format_def SERVER_MODULE_TEMPLATE_def)
qed

section \<open>The idempotency guard of \<open>inject_bootstrap\<close>\<close>

text \<open>
  C10. For every entrypoint whose text contains the substring \<^verbatim>\<open>ensure_local_model_server\<close>
  anywhere, with or without the marker comments of an injected block, \<open>inject_bootstrap\<close>
  returns at once: the file system is left as it was (the entrypoint is unchanged and no
  backup file is created) and nothing is printed. The guard tests for the name of the
  bootstrap function as a substring of the text.
\<close>

theorem inject_bootstrap_guard_substring:
  assumes "lookup (fs w) entrypoint = Some (File content)"
    and "contains bootstrap_name content"
  shows "inject_bootstrap cfg entrypoint package_name w = (Inr (), w)"
  using assms by (rule inject_bootstrap_marked)

theorem inject_bootstrap_guard_substring_witness:
  "\<not> contains ''# >>> CODEx'' user_code_entrypoint \<and>
   inject_bootstrap default_config [''opt'', ''codex'', ''codex'', ''cli.py''] ''codex'' user_code_world
     = (Inr (), user_code_world)"
proof -
  have a: "lookup (fs user_code_world) [''opt'', ''codex'', ''codex'', ''cli.py'']
             = Some (File user_code_entrypoint)"
    by (simp add: user_code_world_def lookup_def)
  have b: "contains bootstrap_name user_code_entrypoint"
    by (simp add: user_code_entrypoint_def bootstrap_name_def LF_def)
  have c: "\<not> contains ''# >>> CODEx'' user_code_entrypoint"
    by (simp add: user_code_entrypoint_def LF_def)
  from c inject_bootstrap_guard_substring[OF a b] show ?thesis by simp
qed

section \<open>Idempotence of the entrypoint patch\<close>

text \<open>
  C1. Patching the same entrypoint twice with the same configuration leaves the file
  system after the second call of \<open>inject_bootstrap\<close> exactly as it was after the first,
  whatever the first call did. When the first call patches an unmarked entrypoint, it
  writes the text with the one injected block, and the second call finds the bootstrap
  name in that text and returns without changing anything: the entrypoint is
  byte-identical and no second block is added.
\<close>

theorem inject_bootstrap_idempotent:
  "fs (snd (inject_bootstrap cfg e pkg (snd (inject_bootstrap cfg e pkg w))))
     = fs (snd (inject_bootstrap cfg e pkg w))
   \<and> (lookup (fs w) e = Some (File c) \<and> \<not> contains bootstrap_name (universal_newlines c)
        \<and> \<not> dry_run cfg \<and> backup_path_of cfg e = Inr b
      \<longrightarrow> (let w1 = snd (inject_bootstrap cfg e pkg w)
           in fst (inject_bootstrap cfg e pkg w) = Inr ()
              \<and> lookup (fs w1) e = Some (File (patched_text pkg (universal_newlines c)))
              \<and> inject_bootstrap cfg e pkg w1 = (Inr (), w1)))"
proof (intro conjI impI)
  show "fs (snd (inject_bootstrap cfg e pkg (snd (inject_bootstrap cfg e pkg w))))
          = fs (snd (inject_bootstrap cfg e pkg w))"
    by (rule inject_bootstrap_second_run)
next
  assume h: "lookup (fs w) e = Some (File c) \<and> \<not> contains bootstrap_name (universal_newlines c)
             \<and> \<not> dry_run cfg \<and> backup_path_of cfg e = Inr b"
  let ?new = "patched_text pkg (universal_newlines c)"
  let ?f1 = "if path_exists (fs w) b then fs w else (fs w)(b \<mapsto> File c)"
  let ?w1 = "w\<lparr>fs := ?f1(e \<mapsto> File ?new)\<rparr>"
  from h have b1: "backup_once cfg e (fs w) = Inr ?f1"
    by (intro backup_once_succeeds) simp_all
  have 1: "inject_bootstrap cfg e pkg w = (Inr (), ?w1)"
    using h b1 by (intro inject_bootstrap_writes) simp_all
  have "e \<noteq> []" using h by (auto dest: lookup_file_nonroot)
  then have 2: "lookup (fs ?w1) e = Some (File ?new)" by (simp add: lookup_def)
  then have 3: "inject_bootstrap cfg e pkg ?w1 = (Inr (), ?w1)"
    using patched_text_contains_bootstrap by (rule inject_bootstrap_marked)
  show "let w1 = snd (inject_bootstrap cfg e pkg w)
        in fst (inject_bootstrap cfg e pkg w) = Inr ()
           \<and> lookup (fs w1) e = Some (File (patched_text pkg (universal_newlines c)))
           \<and> inject_bootstrap cfg e pkg w1 = (Inr (), w1)"
    unfolding Let_def 1 snd_conv fst_conv using 2 3 by simp
qed

theorem inject_bootstrap_idempotent_witness:
  "fst (inject_bootstrap default_config sample_path ''codex'' sample_world) = Inr ()
   \<and> lookup (fs (snd (inject_bootstrap default_config sample_path ''codex'' sample_world)))
         sample_path = Some (File (patched_text ''codex'' sample_entrypoint))
   \<and> inject_bootstrap default_config sample_path ''codex''
         (snd (inject_bootstrap default_config sample_path ''codex'' sample_world))
       = (Inr (), snd (inject_bootstrap default_config sample_path ''codex'' sample_world))"
proof -
  have h1: "lookup (fs sample_world) sample_path = Some (File sample_entrypoint)"
    by (simp add: sample_world_def sample_fs_def sample_path_def lookup_def)
  have u: "universal_newlines sample_entrypoint = sample_entrypoint"
    by (simp add: sample_entrypoint_def LF_def CR_def)
  have h2: "\<not> contains bootstrap_name (universal_newlines sample_entrypoint)"
    unfolding u by (simp add: sample_entrypoint_def bootstrap_name_def LF_def)
  have h3: "\<not> dry_run default_config"
    by (simp add: default_config_def)
  have h4: "backup_path_of default_config sample_path
              = Inr [''opt'', ''codex'', ''codex'', ''cli.py.bak'']"
    by (simp add: backup_path_of_def with_suffix_def suffix_of_def name_of_def parent_def
        startswith_def default_config_def sample_path_def)
  from inject_bootstrap_idempotent[of default_config sample_path "''codex''" sample_world
      sample_entrypoint "[''opt'', ''codex'', ''codex'', ''cli.py.bak'']"] h1 h2 h3 h4
  show ?thesis unfolding u by (simp add: Let_def)
qed

section \<open>The insertion point\<close>







section \<open>Request translation in the bridge\<close>





section \<open>Malformed requests\<close>





section \<open>Locating the installation\<close>




section \<open>Backup files are written once\<close>

lemma inject_bootstrap_first_backup:
  assumes "lookup (fs w) e = Some (File c)" and "backup_path_of cfg e = Inr b"
    and "\<not> path_exists (fs w) b" and "\<not> dry_run cfg"
    and "\<not> contains bootstrap_name (universal_newlines c)"
  shows "lookup (fs (snd (inject_bootstrap cfg e pkg w))) b = Some (File c)"
proof -
  have nb: "lookup (fs w) b = None" using assms(3) by (simp add: path_exists_def)
  then have ne: "b \<noteq> e" and nr: "b \<noteq> []"
    using assms(1) by (auto simp: lookup_def split: if_splits)
  have "backup_once cfg e (fs w) = Inr ((fs w)(b \<mapsto> File c))"
    using backup_once_succeeds[OF assms(1,2)] assms(3) by simp
  with assms(1,5,4) have "inject_bootstrap cfg e pkg w =
      (Inr (), w\<lparr>fs := ((fs w)(b \<mapsto> File c))(e \<mapsto>
                        File (patched_text pkg (universal_newlines c)))\<rparr>)"
    by (intro inject_bootstrap_writes) simp_all
  with ne nr show ?thesis by (simp add: lookup_def)
qed

lemma install_server_module_first_backup:
  assumes "lookup (fs w) (server_path_of d) = Some (File c)"
    and "backup_path_of cfg (server_path_of d) = Inr b"
    and "\<not> path_exists (fs w) b" and "\<not> dry_run cfg"
  shows "lookup (fs (snd (install_server_module cfg d w))) b = Some (File c)"
proof -
  let ?f1 = "(fs w)(b \<mapsto> File c)"
  have nb: "lookup (fs w) b = None" using assms(3) by (simp add: path_exists_def)
  then have ne: "b \<noteq> server_path_of d" and nr: "b \<noteq> []"
    using assms(1) by (auto simp: lookup_def split: if_splits)
  have ex: "path_exists (fs w) (server_path_of d)"
    using assms(1) by (simp add: path_exists_def)
  have b1: "backup_once cfg (server_path_of d) (fs w) = Inr ?f1"
    using backup_once_succeeds[OF assms(1,2)] assms(3) by simp
  have l1: "lookup ?f1 b = Some (File c)" using nr by (simp add: lookup_def)
  show ?thesis
  proof (cases "render_server_module (host cfg) (port cfg) (model cfg)")
    case (Inl err)
    with ex assms(4) b1 l1 show ?thesis by (simp add: install_server_module_def)
  next
    case (Inr module_text)
    have "lookup (fs (snd (write_file cfg (server_path_of d) module_text (w\<lparr>fs := ?f1\<rparr>)))) b
            = lookup (fs (w\<lparr>fs := ?f1\<rparr>)) b"
      using l1 ne by (intro write_file_keeps) simp_all
    with ex assms(4) b1 l1 Inr show ?thesis
      by (auto simp: install_server_module_def Let_def split: prod.splits sum.splits)
  qed
qed

text \<open>
  C4. A backup file is never overwritten once it exists. The backup path is the target
  with the backup suffix appended to its name, so it differs from the target exactly
  when the suffix is not empty. Whenever something exists at a backup path other than
  the target, \<open>inject_bootstrap\<close> and \<open>install_server_module\<close> leave it as it is, whatever
  else they do. Hence, when the first run creates the backup of a file with content \<open>c\<close>,
  the backup holds \<open>c\<close>, the content before that run, after any number \<open>n > 0\<close> of runs.
\<close>

theorem backup_never_overwritten:
  "(backup_path_of cfg t = Inr b \<longrightarrow> (b = t \<longleftrightarrow> backup_suffix cfg = []))
   \<and> (backup_path_of cfg e = Inr b \<and> b \<noteq> e \<and> path_exists (fs w) b \<longrightarrow>
        lookup (fs (snd (inject_bootstrap cfg e pkg w))) b = lookup (fs w) b)
   \<and> (backup_path_of cfg (server_path_of d) = Inr b \<and> b \<noteq> server_path_of d
        \<and> path_exists (fs w) b \<longrightarrow>
        lookup (fs (snd (install_server_module cfg d w))) b = lookup (fs w) b)
   \<and> (lookup (fs w) e = Some (File c) \<and> backup_path_of cfg e = Inr b
        \<and> \<not> path_exists (fs w) b \<and> \<not> dry_run cfg
        \<and> \<not> contains bootstrap_name (universal_newlines c) \<and> 0 < n \<longrightarrow>
        lookup (fs (((\<lambda>w. snd (inject_bootstrap cfg e pkg w)) ^^ n) w)) b = Some (File c))
   \<and> (lookup (fs w) (server_path_of d) = Some (File c)
        \<and> backup_path_of cfg (server_path_of d) = Inr b
        \<and> \<not> path_exists (fs w) b \<and> \<not> dry_run cfg \<and> 0 < n \<longrightarrow>
        lookup (fs (((\<lambda>w. snd (install_server_module cfg d w)) ^^ n) w)) b = Some (File c))"
proof (intro conjI impI)
  assume "backup_path_of cfg t = Inr b"
  then show "b = t \<longleftrightarrow> backup_suffix cfg = []" by (rule backup_path_of_same)
next
  assume "backup_path_of cfg e = Inr b \<and> b \<noteq> e \<and> path_exists (fs w) b"
  then show "lookup (fs (snd (inject_bootstrap cfg e pkg w))) b = lookup (fs w) b"
    by (simp add: inject_bootstrap_keeps)
next
  assume "backup_path_of cfg (server_path_of d) = Inr b \<and> b \<noteq> server_path_of d
        \<and> path_exists (fs w) b"
  then show "lookup (fs (snd (install_server_module cfg d w))) b = lookup (fs w) b"
    by (simp add: install_server_module_keeps)
next
  assume h: "lookup (fs w) e = Some (File c) \<and> backup_path_of cfg e = Inr b
        \<and> \<not> path_exists (fs w) b \<and> \<not> dry_run cfg
        \<and> \<not> contains bootstrap_name (universal_newlines c) \<and> 0 < n"
  then have ne: "b \<noteq> e" by (auto simp: path_exists_def)
  show "lookup (fs (((\<lambda>w. snd (inject_bootstrap cfg e pkg w)) ^^ n) w)) b = Some (File c)"
  proof (rule funpow_keeps)
    fix v :: world
    assume v: "lookup (fs v) b = Some (File c)"
    then have "path_exists (fs v) b" by (simp add: path_exists_def)
    with h ne have "lookup (fs (snd (inject_bootstrap cfg e pkg v))) b = lookup (fs v) b"
      by (intro inject_bootstrap_keeps) simp_all
    with v show "lookup (fs (snd (inject_bootstrap cfg e pkg v))) b = Some (File c)" by simp
  next
    show "lookup (fs (snd (inject_bootstrap cfg e pkg w))) b = Some (File c)"
      using h by (intro inject_bootstrap_first_backup) simp_all
  next
    show "0 < n" using h by simp
  qed
next
  assume h: "lookup (fs w) (server_path_of d) = Some (File c)
        \<and> backup_path_of cfg (server_path_of d) = Inr b
        \<and> \<not> path_exists (fs w) b \<and> \<not> dry_run cfg \<and> 0 < n"
  then have ne: "b \<noteq> server_path_of d" by (auto simp: path_exists_def)
  show "lookup (fs (((\<lambda>w. snd (install_server_module cfg d w)) ^^ n) w)) b = Some (File c)"
  proof (rule funpow_keeps)
    fix v :: world
    assume v: "lookup (fs v) b = Some (File c)"
    then have "path_exists (fs v) b" by (simp add: path_exists_def)
    with h ne have "lookup (fs (snd (install_server_module cfg d v))) b = lookup (fs v) b"
      by (intro install_server_module_keeps) simp_all
    with v show "lookup (fs (snd (install_server_module cfg d v))) b = Some (File c)" by simp
  next
    show "lookup (fs (snd (install_server_module cfg d w))) b = Some (File c)"
      using h by (intro install_server_module_first_backup) simp_all
  next
    show "0 < n" using h by simp
  qed
qed

theorem backup_never_overwritten_witness:
  "lookup (fs (((\<lambda>w. snd (inject_bootstrap default_config sample_path ''codex'' w)) ^^ 3)
                sample_world))
     [''opt'', ''codex'', ''codex'', ''cli.py.bak''] = Some (File sample_entrypoint)
   \<and> lookup (fs (((\<lambda>w. snd (install_server_module default_config sample_package_dir w)) ^^ 3)
                  installed_world))
       [''opt'', ''codex'', ''codex'', ''local_model_server.py.bak'']
       = Some (File ''# earlier bridge'')
   \<and> [''opt'', ''codex'', ''codex'', ''cli.py.bak''] \<noteq> sample_path"
proof -
  have h1: "lookup (fs sample_world) sample_path = Some (File sample_entrypoint)"
    by (simp add: sample_world_def sample_fs_def sample_path_def lookup_def)
  have u: "universal_newlines sample_entrypoint = sample_entrypoint"
    by (simp add: sample_entrypoint_def LF_def CR_def)
  have h2: "\<not> contains bootstrap_name (universal_newlines sample_entrypoint)"
    unfolding u by (simp add: sample_entrypoint_def bootstrap_name_def LF_def)
  have h3: "\<not> dry_run default_config"
    by (simp add: default_config_def)
  have h4: "backup_path_of default_config sample_path
              = Inr [''opt'', ''codex'', ''codex'', ''cli.py.bak'']"
    by (simp add: backup_path_of_def with_suffix_def suffix_of_def name_of_def parent_def
        startswith_def default_config_def sample_path_def)
  have h5: "\<not> path_exists (fs sample_world) [''opt'', ''codex'', ''codex'', ''cli.py.bak'']"
    by (simp add: sample_world_def sample_fs_def path_exists_def lookup_def)
  have g1: "lookup (fs installed_world) (server_path_of sample_package_dir)
              = Some (File ''# earlier bridge'')"
    by (simp add: installed_world_def server_path_of_def sample_package_dir_def lookup_def)
  have g4: "backup_path_of default_config (server_path_of sample_package_dir)
              = Inr [''opt'', ''codex'', ''codex'', ''local_model_server.py.bak'']"
    by (simp add: backup_path_of_def with_suffix_def suffix_of_def name_of_def parent_def
        startswith_def default_config_def server_path_of_def sample_package_dir_def)
  have g5: "\<not> path_exists (fs installed_world)
              [''opt'', ''codex'', ''codex'', ''local_model_server.py.bak'']"
    by (simp add: installed_world_def sample_fs_def path_exists_def lookup_def)
  have s: "backup_suffix default_config \<noteq> []" by (simp add: default_config_def)
  from backup_never_overwritten[of default_config sample_path
      "[''opt'', ''codex'', ''codex'', ''cli.py.bak'']" sample_path sample_world "''codex''"
      sample_package_dir sample_entrypoint 3] h1 h2 h3 h4 h5 s
  have a: "lookup (fs (((\<lambda>w. snd (inject_bootstrap default_config sample_path ''codex'' w)) ^^ 3)
                sample_world))
     [''opt'', ''codex'', ''codex'', ''cli.py.bak''] = Some (File sample_entrypoint)"
    and c: "[''opt'', ''codex'', ''codex'', ''cli.py.bak''] \<noteq> sample_path"
    by simp_all
  from backup_never_overwritten[of default_config "server_path_of sample_package_dir"
      "[''opt'', ''codex'', ''codex'', ''local_model_server.py.bak'']"
      "server_path_of sample_package_dir" installed_world "''codex''"
      sample_package_dir "''# earlier bridge''" 3] g1 g4 g5 h3
  have b: "lookup (fs (((\<lambda>w. snd (install_server_module default_config sample_package_dir w)) ^^ 3)
                  installed_world))
       [''opt'', ''codex'', ''codex'', ''local_model_server.py.bak'']
       = Some (File ''# earlier bridge'')"
    by simp
  from a b c show ?thesis by simp
qed

section \<open>Installing the bridge module\<close>

lemma backup_once_target_kept:
  "backup_once cfg t f = Inr f1 \<Longrightarrow> lookup f1 t = lookup f t"
  by (auto simp: backup_once_def copy2_def path_exists_def lookup_def
      split: sum.splits if_splits option.splits node.splits)

lemma install_server_module_result:
  "install_server_module cfg d w =
     (case (if path_exists (fs w) (server_path_of d) \<and> \<not> dry_run cfg
            then backup_once cfg (server_path_of d) (fs w) else Inr (fs w)) of
        Inl e \<Rightarrow> (Inl e, w)
      | Inr f1 \<Rightarrow> (Inl (KeyError ''role''), w\<lparr>fs := f1\<rparr>))"
  by (simp add: install_server_module_def render_server_module_key_error Let_def
      split: sum.splits)

lemma sample_run_stages:
  "codex_root cfg = None \<Longrightarrow>
   locate_codex (resolve_path sample_host) (install_dir sample_host) cfg (fs sample_world)
     = Inr [''opt'', ''codex'']"
  "resolve_package_dir (list_names sample_host) (fs sample_world) [''opt'', ''codex'']
     = Inr sample_package_dir"
  "resolve_entrypoint (list_names sample_host) (fs sample_world) sample_package_dir
     = Inr sample_path"
  "codex_root default_config = None" "codex_root dry_config = None"
  by (simp_all add: locate_codex_def sample_host_def DEFAULT_INSTALL_LOCATIONS_def
      resolve_under_def startswith_def home_u_def sample_world_def sample_fs_def
      path_exists_def lookup_def resolve_package_dir_def has_init_def
      resolve_entrypoint_def sample_package_dir_def sample_path_def default_config_def
      dry_config_def)

lemma sample_no_server_module:
  "\<not> path_exists (fs sample_world) (server_path_of sample_package_dir)"
  by (simp add: sample_world_def sample_fs_def server_path_of_def sample_package_dir_def
      path_exists_def lookup_def)

text \<open>
  C2 does not hold of the code. The template holds braces that are not replacement
  fields of \<open>host\<close>, \<open>port\<close> and \<open>model\<close>; \<^verbatim>\<open>str.format\<close> reads the first of them,
  \<^verbatim>\<open>{role.upper()}\<close>, as a field named \<open>role\<close> and raises \<open>KeyError\<close>. So for every
  configuration \<open>install_server_module\<close> raises, and what is at the target path stays as it
  was: the bridge module is never written. With the default configuration on the sample
  installation the result is that \<open>KeyError\<close> and the world is unchanged, and a whole run
  of the integrator there ends with the same error, with or without the dry-run flag.
\<close>

theorem install_server_module_raises:
  "(\<exists>e. fst (install_server_module cfg d w) = Inl e)
   \<and> lookup (fs (snd (install_server_module cfg d w))) (server_path_of d)
       = lookup (fs w) (server_path_of d)
   \<and> install_server_module default_config sample_package_dir sample_world
       = (Inl (KeyError ''role''), sample_world)
   \<and> run sample_host default_config sample_world = (Inl (KeyError ''role''), sample_world)
   \<and> run sample_host dry_config sample_world = (Inl (KeyError ''role''), sample_world)"
proof (intro conjI)
  show "\<exists>e. fst (install_server_module cfg d w) = Inl e"
    by (simp add: install_server_module_result split: sum.splits)
next
  show "lookup (fs (snd (install_server_module cfg d w))) (server_path_of d)
       = lookup (fs w) (server_path_of d)"
    by (auto simp: install_server_module_result backup_once_target_kept split: sum.splits if_splits)
next
  have "\<not> path_exists (fs sample_world) (server_path_of sample_package_dir)"
    by (simp add: sample_world_def sample_fs_def server_path_of_def sample_package_dir_def
        path_exists_def lookup_def)
  then show "install_server_module default_config sample_package_dir sample_world
       = (Inl (KeyError ''role''), sample_world)"
    by (simp add: install_server_module_result)
next
  show "run sample_host default_config sample_world = (Inl (KeyError ''role''), sample_world)"
    by (simp add: run_def sample_run_stages install_server_module_result sample_no_server_module)
next
  show "run sample_host dry_config sample_world = (Inl (KeyError ''role''), sample_world)"
    by (simp add: run_def sample_run_stages install_server_module_result sample_no_server_module)
qed

text \<open>
  C3 does not hold of the code, by the same defect: rendering produces no content. For
  the triple of the claim, and for the same triple with another port, the rendering step
  raises \<open>KeyError\<close> for \<open>role\<close>.
\<close>

theorem render_server_module_no_content:
  "render_server_module ''127.0.0.1'' 3925 ''llama3'' = Inl (KeyError ''role'')
   \<and> render_server_module ''127.0.0.1'' 8080 ''llama3'' = Inl (KeyError ''role'')"
  by (simp add: render_server_module_key_error)

section \<open>Dry run\<close>








end
